theory Spec2Isabelle
  imports Complex_Main "HOL-Library.Word"
begin

section \<open>Common vocabulary of the timers\<close>

text \<open>
  All time stamps are \<open>uint64_t\<close> nanoseconds; arithmetic on them wraps modulo \<open>2 ^ 64\<close>.
\<close>

type_synonym u64 = "64 word"

text \<open>\<open>cpm::TRIGGER_STOP_SYMBOL\<close> of \<open>Timer.hpp\<close>.\<close>

definition TRIGGER_STOP_SYMBOL :: u64 where
  "TRIGGER_STOP_SYMBOL = 0xffffffffffffffff"

text \<open>\<open>EXIT_FAILURE\<close> of the C library.\<close>

definition EXIT_FAILURE :: nat where
  "EXIT_FAILURE = 1"

text \<open>
  A sample of the \<open>systemTrigger\<close> reader: \<open>sample.info().valid()\<close> and
  \<open>sample.data().next_start().nanoseconds()\<close>.
\<close>

datatype sample = Sample (valid: bool) (next_start: u64)

text \<open>
  The exceptions of the timer interface. Only \<open>ErrorTimerStart\<close> is thrown by the code;
  \<open>ErrorConfiguration\<close> is the name the interface description uses for a rejected
  configuration, and no function below constructs it.
\<close>

datatype error = ErrorTimerStart | ErrorConfiguration

text \<open>
  What a run does to its surroundings, in program order: calls of the user's callbacks,
  messages written to the \<open>readyStatus\<close> topic, and log lines.
  \<open>LogPeriodsMissed\<close> carries the \<open>int\<close> that the format \<open>%d\<close> receives;
  \<open>Stderr\<close> carries the line printed, without its newline.
\<close>

datatype effect =
    Callback u64
  | StopCallback
  | WriteReadyStatus string u64
  | LogWrite nat string
  | LogPeriodsMissed int
  | LogTimeMeasurement
  | Stderr string

text \<open>
  How a call ends: it returns, it throws, it terminates the process (\<open>exit\<close>), or the
  recorded environment ends while the call is still inside one of its loops.
\<close>

datatype status = Returned | Threw error | Exited nat | Blocked

text \<open>The state shared by both timer classes.\<close>

record Timer =
  period_nanoseconds :: u64
  offset_nanoseconds :: u64
  node_id :: string
  active :: bool
  cancelled :: bool
  m_update_callback :: bool
  m_stop_callback :: bool
  joinable :: bool

text \<open>
  \<open>m_update_callback\<close> and \<open>m_stop_callback\<close> record whether the stored
  \<open>std::function\<close> is non-empty; \<open>joinable\<close> is \<open>runner_thread.joinable()\<close>.

  \<open>stop()\<close> has the same body in \<open>TimerFD\<close> and \<open>TimerSimulated\<close>: set
  \<open>cancelled\<close>, clear \<open>active\<close>, join the worker if there is one, clear
  \<open>cancelled\<close> again. While \<open>stop()\<close> waits in \<open>join()\<close> the worker thread goes
  on: \<open>worker\<close> is what it does to the timer from the two stores until it has ended
  (it may only now enter \<open>start\<close>, or leave one of its loops). After the join the
  thread is no longer joinable.
\<close>

definition stop_join ::
  "('a Timer_scheme \<Rightarrow> 'a Timer_scheme) \<Rightarrow> 'a Timer_scheme \<Rightarrow> 'a Timer_scheme" where
  "stop_join worker t =
     (let t1 = t\<lparr>cancelled := True\<rparr>;
          t2 = t1\<lparr>active := False\<rparr>;
          t3 = (if joinable t2 then (worker t2)\<lparr>joinable := False\<rparr> else t2)
      in t3\<lparr>cancelled := False\<rparr>)"

text \<open>
  \<open>stop()\<close> when no worker thread is running any more: there is none, or it has
  ended, so that \<open>join()\<close> returns at once. This is the \<open>stop()\<close> that returns
  while \<open>start\<close> runs in the caller's own thread, called by a callback or by another
  thread.
\<close>

definition stop :: "'a Timer_scheme \<Rightarrow> 'a Timer_scheme" where
  "stop t = stop_join (\<lambda>u. u) t"

section \<open>The real-time timer (TimerFD.cpp)\<close>

record TimerFD = Timer +
  wait_for_start :: bool
  stop_signal :: u64
  start_point :: u64
  start_point_initialized :: bool

text \<open>
  Modelled from the spec: the class declaration (\<open>TimerFD.hpp\<close>) is not among the
  sources, and with it the initial values of \<open>start_point\<close> and
  \<open>start_point_initialized\<close>. "\<open>get_start_time()\<close> returns 0 before the first
  successful start" (and \<open>get_start_time\<close> has the comment "Return 0 if not yet
  started"), so they start as \<open>0\<close> and \<open>false\<close>. The other members are as the
  constructor leaves them: both flags \<open>false\<close>, the callbacks empty, no worker thread.
\<close>

definition TimerFD_new ::
  "string \<Rightarrow> u64 \<Rightarrow> u64 \<Rightarrow> bool \<Rightarrow> u64 \<Rightarrow> TimerFD" where
  "TimerFD_new nid period offset wfs stopsig =
     \<lparr>period_nanoseconds = period, offset_nanoseconds = offset, node_id = nid,
      active = False, cancelled = False, m_update_callback = False,
      m_stop_callback = False, joinable = False,
      wait_for_start = wfs, stop_signal = stopsig,
      start_point = 0, start_point_initialized = False\<rparr>"

text \<open>
  The constructor. An offset that is not below the period logs, prints to \<open>stderr\<close> and
  calls \<open>exit(EXIT_FAILURE)\<close>, and no object comes into being.
\<close>

definition TimerFD_ctor ::
  "string \<Rightarrow> u64 \<Rightarrow> u64 \<Rightarrow> bool \<Rightarrow> u64 \<Rightarrow> status \<times> TimerFD option \<times> effect list" where
  "TimerFD_ctor nid period offset wfs stopsig =
     (if offset \<ge> period
      then (Exited EXIT_FAILURE, None,
            [LogWrite 1 ''TimerFD: Offset set higher than period.'',
             Stderr ''Offset set higher than period.''])
      else (Returned, Some (TimerFD_new nid period offset wfs stopsig), []))"

text \<open>
  The environment of one polling iteration: the samples \<open>take()\<close> hands out, and whether
  a \<open>stop()\<close> was called and returned while the iteration ran (by a callback or by
  another thread, no worker thread running). Callbacks are taken to return. A
  \<open>stop()\<close> that waits in \<open>join()\<close> for this very run is not an event of the run:
  it is \<open>stop_join\<close> with the rest of the run as its worker.
\<close>

record wait_event =
  taken :: "sample list"
  stop_called :: bool

text \<open>
  One iteration of the main loop also reads the clock twice: after \<open>wait()\<close> returns
  and after the update callback.
\<close>

record tick_event = wait_event +
  t_wake :: u64
  t_after :: u64

text \<open>The first valid sample of a batch, as the \<open>for\<close> loop of \<open>receiveStartTime\<close> finds it.\<close>

fun first_valid :: "sample list \<Rightarrow> u64 option" where
  "first_valid [] = None"
| "first_valid (s # ss) = (if valid s then Some (next_start s) else first_valid ss)"

text \<open>
  \<open>receiveStartTime\<close>: while active, publish a ready status with stamp 0, wait up to
  2 s, and return the first valid sample's \<open>next_start\<close>; once inactive, return the
  stop signal. \<open>None\<close> means the recorded environment ended while the loop was
  waiting (after its write).
\<close>

fun receiveStartTime ::
  "TimerFD \<Rightarrow> wait_event list \<Rightarrow> u64 option \<times> TimerFD \<times> effect list" where
  "receiveStartTime t [] =
     (if active t then (None, t, [WriteReadyStatus (node_id t) 0])
      else (Some (stop_signal t), t, []))"
| "receiveStartTime t (e # es) =
     (if active t then
        (let w = WriteReadyStatus (node_id t) 0;
             t' = (if stop_called e then stop t else t)
         in case first_valid (taken e) of
              Some S \<Rightarrow> (Some S, t', [w])
            | None \<Rightarrow>
                (case receiveStartTime t' es of (r, t'', fx) \<Rightarrow> (r, t'', w # fx)))
      else (Some (stop_signal t), t, []))"

text \<open>The initial deadline, lines 172 to 177 of \<open>TimerFD::start\<close>.\<close>

definition first_deadline :: "u64 \<Rightarrow> u64 \<Rightarrow> u64 \<Rightarrow> u64" where
  "first_deadline period offset sp =
     (if (sp - offset) mod period = 0 then sp
      else (((sp - offset) div period) + 1) * period + offset)"

text \<open>\<open>received_stop_signal\<close>: some valid sample of the batch carries the stop signal.\<close>

fun received_stop_signal :: "TimerFD \<Rightarrow> sample list \<Rightarrow> bool" where
  "received_stop_signal t [] = False"
| "received_stop_signal t (s # ss) =
     (if valid s \<and> next_start s = stop_signal t then True else received_stop_signal t ss)"

text \<open>\<open>static_cast<int>\<close> of a \<open>uint64_t\<close>: the low 32 bits, read as two's complement.\<close>

definition static_cast_int :: "u64 \<Rightarrow> int" where
  "static_cast_int k = sint (ucast k :: 32 word)"

text \<open>
  The body of the main loop for the deadline \<open>d\<close>: if the clock has reached \<open>d\<close>, call
  the callback, advance the deadline by one period, read the clock again and skip the
  periods that have already passed, then look for a stop signal.
\<close>

definition missed_periods :: "u64 \<Rightarrow> u64 \<Rightarrow> u64 \<Rightarrow> u64" where
  "missed_periods period current_time deadline = ((current_time - deadline) div period) + 1"

definition loop_body :: "TimerFD \<Rightarrow> u64 \<Rightarrow> tick_event \<Rightarrow> TimerFD \<times> u64 \<times> effect list" where
  "loop_body t deadline e =
     (if t_wake e \<ge> deadline then
        (let fx1 = (if m_update_callback t then [Callback deadline] else []);
             d1 = deadline + period_nanoseconds t;
             current_time = t_after e;
             k = missed_periods (period_nanoseconds t) current_time d1;
             d2 = (if current_time \<ge> d1 then d1 + k * period_nanoseconds t else d1);
             fx2 = (if current_time \<ge> d1
                    then [LogPeriodsMissed (static_cast_int k), LogTimeMeasurement] else []);
             t1 = (if stop_called e then stop t else t);
             t2 = (if received_stop_signal t (taken e) \<and> \<not> m_stop_callback t
                   then t1\<lparr>active := False\<rparr> else t1);
             fx3 = (if received_stop_signal t (taken e) \<and> m_stop_callback t
                    then [StopCallback] else [])
         in (t2, d2, fx1 @ fx2 @ fx3))
      else ((if stop_called e then stop t else t), deadline, []))"

fun main_loop ::
  "TimerFD \<Rightarrow> u64 \<Rightarrow> tick_event list \<Rightarrow> status \<times> TimerFD \<times> effect list" where
  "main_loop t deadline [] = ((if active t then Blocked else Returned), t, [])"
| "main_loop t deadline (e # es) =
     (if active t then
        (case loop_body t deadline e of (t', d', fx) \<Rightarrow>
           (case main_loop t' d' es of (st, t'', fx') \<Rightarrow> (st, t'', fx @ fx')))
      else (Returned, t, []))"

text \<open>
  Lines 172 to 215 of \<open>TimerFD::start\<close>: compute the first deadline from
  \<open>start_point\<close>, mark the start point as initialised, and run the main loop.
\<close>

definition run_from_start_point ::
  "TimerFD \<Rightarrow> tick_event list \<Rightarrow> status \<times> TimerFD \<times> effect list" where
  "run_from_start_point t ticks =
     (let deadline = first_deadline (period_nanoseconds t) (offset_nanoseconds t) (start_point t)
      in main_loop (t\<lparr>start_point_initialized := True\<rparr>) deadline ticks)"

text \<open>
  \<open>TimerFD::start(update_callback)\<close>. \<open>cb\<close> says whether the callback passed in is
  non-empty, \<open>now\<close> is the clock reading of line 169, \<open>negs\<close> the environment of the
  start negotiation and \<open>ticks\<close> that of the main loop.
\<close>

definition start ::
  "TimerFD \<Rightarrow> bool \<Rightarrow> u64 \<Rightarrow> wait_event list \<Rightarrow> tick_event list
     \<Rightarrow> status \<times> TimerFD \<times> effect list" where
  "start t cb now negs ticks =
     (if active t then
        (Threw ErrorTimerStart, t,
         [LogWrite 2 ''TimerFD: The cpm::Timer can not be started twice.''])
      else if cancelled (t\<lparr>active := True\<rparr>) then (Returned, t\<lparr>active := True\<rparr>, [])
      else if wait_for_start t then
        (case receiveStartTime (t\<lparr>active := True, m_update_callback := cb\<rparr>) negs of
           (None, t3, fx) \<Rightarrow> (Blocked, t3, fx)
         | (Some S, t3, fx) \<Rightarrow>
             (if S = stop_signal t3 then (Returned, t3\<lparr>start_point := S\<rparr>, fx)
              else (case run_from_start_point (t3\<lparr>start_point := S\<rparr>) ticks of
                      (st, t6, fx') \<Rightarrow> (st, t6, fx @ fx'))))
      else
        run_from_start_point (t\<lparr>active := True, m_update_callback := cb, start_point := now\<rparr>) ticks)"

text \<open>The overload with a stop callback stores it first.\<close>

definition start_with_stop ::
  "TimerFD \<Rightarrow> bool \<Rightarrow> bool \<Rightarrow> u64 \<Rightarrow> wait_event list \<Rightarrow> tick_event list
     \<Rightarrow> status \<times> TimerFD \<times> effect list" where
  "start_with_stop t cb scb now negs ticks = start (t\<lparr>m_stop_callback := scb\<rparr>) cb now negs ticks"

text \<open>
  \<open>start_async\<close>: when no worker is joinable, store the callback and spawn the worker
  (which then runs \<open>start\<close> on the resulting state); otherwise log and throw.
\<close>

definition start_async :: "TimerFD \<Rightarrow> bool \<Rightarrow> status \<times> TimerFD \<times> effect list" where
  "start_async t cb =
     (if \<not> joinable t then (Returned, t\<lparr>m_update_callback := cb, joinable := True\<rparr>, [])
      else (Threw ErrorTimerStart, t,
            [LogWrite 2 ''TimerFD: The cpm::Timer can not be started twice.'']))"

definition get_start_time :: "TimerFD \<Rightarrow> u64" where
  "get_start_time t = (if \<not> start_point_initialized t then 0 else start_point t)"


text \<open>
  Reading a run: the deadlines handed to the update callback, and the numbers of the
  missed-period warnings, both in program order.
\<close>

fun callbacks :: "effect list \<Rightarrow> u64 list" where
  "callbacks [] = []"
| "callbacks (Callback d # fx) = d # callbacks fx"
| "callbacks (x # fx) = callbacks fx"

fun missed_logs :: "effect list \<Rightarrow> int list" where
  "missed_logs [] = []"
| "missed_logs (LogPeriodsMissed k # fx) = k # missed_logs fx"
| "missed_logs (x # fx) = missed_logs fx"

text \<open>
  A list of instants in which each one is later than the one before it by a positive
  multiple of \<open>P\<close>.
\<close>

fun in_step :: "nat \<Rightarrow> nat list \<Rightarrow> bool" where
  "in_step P (a # b # ds) = (a < b \<and> (b - a) mod P = 0 \<and> in_step P (b # ds))"
| "in_step P ds = True"

text \<open>
  What is assumed of the clock in one iteration of the main loop: both readings are
  more than a period before the end of the 64-bit range.
\<close>

definition clock_ok :: "u64 \<Rightarrow> tick_event \<Rightarrow> bool" where
  "clock_ok P e =
     (unat (t_wake e) + unat P < 2 ^ 64 \<and> unat (t_after e) + unat P < 2 ^ 64)"

section \<open>The simulated timer (TimerSimulated.cpp)\<close>

record TimerSimulated = Timer +
  current_time :: u64

text \<open>The constructor places no condition on the offset.\<close>

definition TimerSimulated_new :: "string \<Rightarrow> u64 \<Rightarrow> u64 \<Rightarrow> TimerSimulated" where
  "TimerSimulated_new nid period offset =
     \<lparr>period_nanoseconds = period, offset_nanoseconds = offset, node_id = nid,
      active = False, cancelled = False, m_update_callback = False,
      m_stop_callback = False, joinable = False, current_time = 0\<rparr>"

definition TimerSimulated_ctor ::
  "string \<Rightarrow> u64 \<Rightarrow> u64 \<Rightarrow> status \<times> TimerSimulated option \<times> effect list" where
  "TimerSimulated_ctor nid period offset =
     (Returned, Some (TimerSimulated_new nid period offset), [])"

datatype Answer = DEADLINE | STOP | ANY | NONE

text \<open>
  What the body of the \<open>for\<close> loop of \<open>handle_system_trigger\<close> does with one sample.
\<close>

datatype sample_kind = Matched | StopSeen | OtherValid | Invalid

definition handle_sample ::
  "TimerSimulated \<Rightarrow> u64 \<Rightarrow> sample \<Rightarrow> sample_kind \<times> TimerSimulated \<times> u64 \<times> effect list" where
  "handle_sample t deadline x =
     (if valid x then
        (if next_start x = deadline then
           (let t1 = t\<lparr>current_time := deadline\<rparr>;
                fx = (if m_update_callback t1 then [Callback deadline] else []);
                d1 = deadline + period_nanoseconds t1
            in (Matched, t1, d1, fx @ [WriteReadyStatus (node_id t1) d1]))
         else if next_start x = TRIGGER_STOP_SYMBOL then
           (if m_stop_callback t then (StopSeen, t, deadline, [StopCallback])
            else (StopSeen, t\<lparr>active := False\<rparr>, deadline, []))
         else (OtherValid, t, deadline, []))
      else (Invalid, t, deadline, []))"

text \<open>
  The \<open>for\<close> loop with its two flags; a stop sample returns from inside the loop.
\<close>

fun handle_samples ::
  "TimerSimulated \<Rightarrow> u64 \<Rightarrow> bool \<Rightarrow> bool \<Rightarrow> sample list
     \<Rightarrow> Answer \<times> TimerSimulated \<times> u64 \<times> effect list" where
  "handle_samples t deadline got_valid got_new_deadline [] =
     ((if got_new_deadline then DEADLINE else if got_valid then ANY else NONE),
      t, deadline, [])"
| "handle_samples t deadline got_valid got_new_deadline (x # xs) =
     (case handle_sample t deadline x of
        (StopSeen, t', d', fx) \<Rightarrow> (STOP, t', d', fx)
      | (Matched, t', d', fx) \<Rightarrow>
          (case handle_samples t' d' True True xs of
             (a, t'', d'', fx') \<Rightarrow> (a, t'', d'', fx @ fx'))
      | (OtherValid, t', d', fx) \<Rightarrow>
          (case handle_samples t' d' True got_new_deadline xs of
             (a, t'', d'', fx') \<Rightarrow> (a, t'', d'', fx @ fx'))
      | (Invalid, t', d', fx) \<Rightarrow>
          (case handle_samples t' d' got_valid got_new_deadline xs of
             (a, t'', d'', fx') \<Rightarrow> (a, t'', d'', fx @ fx')))"

definition handle_system_trigger ::
  "TimerSimulated \<Rightarrow> u64 \<Rightarrow> sample list \<Rightarrow> Answer \<times> TimerSimulated \<times> u64 \<times> effect list" where
  "handle_system_trigger t deadline batch = handle_samples t deadline False False batch"

text \<open>
  What the trigger reader's wait set sees: either two seconds pass without data, or data
  arrives. A wait with a 2 s timeout returns in both cases (with nothing to take in the
  first); a wait without timeout returns only in the second.
\<close>

datatype bus_event = Elapsed2s | Arrived wait_event

fun batch_of :: "bus_event \<Rightarrow> wait_event" where
  "batch_of Elapsed2s = \<lparr>taken = [], stop_called = False\<rparr>"
| "batch_of (Arrived e) = e"

text \<open>The main loop of \<open>TimerSimulated::start\<close>: \<open>waitset.wait()\<close> has no timeout.\<close>

fun wait_loop ::
  "TimerSimulated \<Rightarrow> u64 \<Rightarrow> bus_event list \<Rightarrow> status \<times> TimerSimulated \<times> effect list" where
  "wait_loop t deadline [] = ((if active t then Blocked else Returned), t, [])"
| "wait_loop t deadline (Elapsed2s # es) =
     (if active t then wait_loop t deadline es else (Returned, t, []))"
| "wait_loop t deadline (Arrived e # es) =
     (if active t then
        (case handle_system_trigger t deadline (taken e) of
           (a, t', d', fx) \<Rightarrow>
             (case wait_loop (if stop_called e then stop t' else t') d' es of
                (st, t'', fx') \<Rightarrow> (st, t'', fx @ fx')))
      else (Returned, t, []))"

text \<open>
  The first loop: while nothing valid has been received, publish the ready status for
  the current deadline, wait at most 2 s and process what arrived; then the main loop.
\<close>

fun ready_loop ::
  "TimerSimulated \<Rightarrow> u64 \<Rightarrow> Answer \<Rightarrow> bus_event list
     \<Rightarrow> status \<times> TimerSimulated \<times> effect list" where
  "ready_loop t deadline system_trigger [] =
     (if system_trigger = NONE \<and> active t
      then (Blocked, t, [WriteReadyStatus (node_id t) deadline])
      else wait_loop t deadline [])"
| "ready_loop t deadline system_trigger (ev # es) =
     (if system_trigger = NONE \<and> active t then
        (case handle_system_trigger t deadline (taken (batch_of ev)) of
           (a, t', d', fx) \<Rightarrow>
             (case ready_loop (if stop_called (batch_of ev) then stop t' else t') d' a es of
                (st, t'', fx') \<Rightarrow>
                  (st, t'', WriteReadyStatus (node_id t) deadline # fx @ fx')))
      else wait_loop t deadline (ev # es))"

definition sim_start ::
  "TimerSimulated \<Rightarrow> bool \<Rightarrow> bus_event list \<Rightarrow> status \<times> TimerSimulated \<times> effect list" where
  "sim_start t cb evs =
     (if active t then
        (Threw ErrorTimerStart, t,
         [LogWrite 2 ''TimerSimulated: The cpm::Timer can not be started twice.''])
      else if cancelled (t\<lparr>active := True\<rparr>) then (Returned, t\<lparr>active := True\<rparr>, [])
      else ready_loop
             (t\<lparr>active := True, m_update_callback := cb, current_time := offset_nanoseconds t\<rparr>)
             (offset_nanoseconds t) NONE evs)"

definition sim_start_async ::
  "TimerSimulated \<Rightarrow> bool \<Rightarrow> status \<times> TimerSimulated \<times> effect list" where
  "sim_start_async t cb =
     (if \<not> joinable t then (Returned, t\<lparr>m_update_callback := cb, joinable := True\<rparr>, [])
      else (Threw ErrorTimerStart, t,
            [LogWrite 2 ''TimerSimulated: The cpm::Timer can not be started twice.'']))"

text \<open>
  The samples the loop reacts to while the deadline is \<open>d\<close>: valid ones that carry
  either \<open>d\<close> or the stop symbol.
\<close>

definition reacts_to :: "u64 \<Rightarrow> sample \<Rightarrow> bool" where
  "reacts_to d x = (valid x \<and> (next_start x = d \<or> next_start x = TRIGGER_STOP_SYMBOL))"

section \<open>The round-trip-time aggregator (RTTAggregator.cpp)\<close>

text \<open>
  The maps of the class. \<open>measure_count\<close> and \<open>missed_answers\<close> hold \<open>double\<close>s
  that only ever receive \<open>0\<close>, \<open>1\<close> and \<open>+= 1\<close>; they are modelled as reals.
  \<open>received_ids\<close> is a \<open>std::set\<close>, kept as a list without repetitions.
\<close>

record RTTAggregator =
  current_best_rtt :: "string \<rightharpoonup> u64"
  current_worst_rtt :: "string \<rightharpoonup> u64"
  all_time_worst_rtt :: "string \<rightharpoonup> u64"
  measure_count :: "string \<rightharpoonup> real"
  missed_answers :: "string \<rightharpoonup> real"
  last_msg_timestamp :: "string \<rightharpoonup> u64"
  received_ids :: "string list"

definition rtt_empty :: RTTAggregator where
  "rtt_empty =
     \<lparr>current_best_rtt = Map.empty, current_worst_rtt = Map.empty,
      all_time_worst_rtt = Map.empty, measure_count = Map.empty,
      missed_answers = Map.empty, last_msg_timestamp = Map.empty, received_ids = []\<rparr>"

text \<open>\<open>delete_entry_timeout_ns = 10e9\<close>.\<close>

definition delete_entry_timeout_ns :: u64 where
  "delete_entry_timeout_ns = 10000000000"

text \<open>
  \<open>std::map::operator[]\<close> used as a value: the stored value, or a value-initialised
  one, which the map then contains.
\<close>

definition subscript :: "('k \<rightharpoonup> 'v::zero) \<Rightarrow> 'k \<Rightarrow> 'v" where
  "subscript m k = (case m k of Some v \<Rightarrow> v | None \<Rightarrow> 0)"

definition touch :: "('k \<rightharpoonup> 'v::zero) \<Rightarrow> 'k \<Rightarrow> ('k \<rightharpoonup> 'v)" where
  "touch m k = (case m k of Some v \<Rightarrow> m | None \<Rightarrow> m(k \<mapsto> 0))"

definition delete_entry :: "string \<Rightarrow> RTTAggregator \<Rightarrow> RTTAggregator" where
  "delete_entry k s =
     s\<lparr>current_best_rtt := (current_best_rtt s)(k := None),
       current_worst_rtt := (current_worst_rtt s)(k := None),
       all_time_worst_rtt := (all_time_worst_rtt s)(k := None),
       measure_count := (measure_count s)(k := None),
       missed_answers := (missed_answers s)(k := None),
       last_msg_timestamp := (last_msg_timestamp s)(k := None),
       received_ids := removeAll k (received_ids s)\<rparr>"

text \<open>
  The body of the loop over the answers of one measurement (lines 38 to 62). The pair
  carries the aggregator and the local set \<open>missing_ids\<close>; \<open>clock k\<close> is the reading of
  \<open>cpm::get_time_ns()\<close> taken while the class \<open>k\<close> is processed.
\<close>

definition store_answer ::
  "(string \<Rightarrow> u64) \<Rightarrow> string \<times> u64 \<times> u64 \<Rightarrow> RTTAggregator \<times> string list
     \<Rightarrow> RTTAggregator \<times> string list" where
  "store_answer clock entry sm =
     (case entry of (k, best, worst) \<Rightarrow>
        (case sm of (s, missing_ids) \<Rightarrow>
           (let s1 = s\<lparr>received_ids := List.insert k (received_ids s),
                       current_best_rtt := (current_best_rtt s)(k \<mapsto> best),
                       current_worst_rtt := (current_worst_rtt s)(k \<mapsto> worst),
                       last_msg_timestamp := (last_msg_timestamp s)(k \<mapsto> clock k)\<rparr>;
                s2 = (if measure_count s1 k = None
                      then s1\<lparr>missed_answers := (missed_answers s1)(k \<mapsto> 0),
                              measure_count := (measure_count s1)(k \<mapsto> 1),
                              all_time_worst_rtt := (all_time_worst_rtt s1)(k \<mapsto> worst)\<rparr>
                      else s1\<lparr>measure_count :=
                                (measure_count s1)(k \<mapsto> subscript (measure_count s1) k + 1),
                              all_time_worst_rtt :=
                                (all_time_worst_rtt s1)
                                  (k \<mapsto> max worst (subscript (all_time_worst_rtt s1) k))\<rparr>)
            in (s2, removeAll k missing_ids))))"

text \<open>The body of the loop over the missing ids (lines 69 to 90).\<close>

definition store_missing :: "(string \<Rightarrow> u64) \<Rightarrow> string \<Rightarrow> RTTAggregator \<Rightarrow> RTTAggregator" where
  "store_missing clock k s =
     (let last = subscript (last_msg_timestamp s) k;
          s0 = s\<lparr>last_msg_timestamp := touch (last_msg_timestamp s) k\<rparr>
      in if clock k - last > delete_entry_timeout_ns then delete_entry k s0
         else
           (let s1 = s0\<lparr>current_best_rtt := (current_best_rtt s0)(k \<mapsto> 0),
                        current_worst_rtt := (current_worst_rtt s0)(k \<mapsto> 0)\<rparr>
            in if measure_count s1 k = None
               then s1\<lparr>missed_answers := (missed_answers s1)(k \<mapsto> 1),
                       measure_count := (measure_count s1)(k \<mapsto> 1)\<rparr>
               else s1\<lparr>missed_answers :=
                         (missed_answers s1)(k \<mapsto> subscript (missed_answers s1) k + 1),
                       measure_count :=
                         (measure_count s1)(k \<mapsto> subscript (measure_count s1) k + 1)\<rparr>))"

text \<open>
  One pass of the measurement thread's loop, under the mutex. \<open>rtt\<close> is what
  \<open>measure_rtt()\<close> returned: for each answering class its best and worst time.
\<close>

definition rtt_round ::
  "(string \<times> u64 \<times> u64) list \<Rightarrow> (string \<Rightarrow> u64) \<Rightarrow> RTTAggregator \<Rightarrow> RTTAggregator" where
  "rtt_round rtt clock s =
     (let missing_ids = received_ids s;
          sm = (if length rtt > 0 then fold (store_answer clock) rtt (s, missing_ids)
                else (s, missing_ids))
      in fold (store_missing clock) (snd sm) (fst sm))"

text \<open>\<open>restart_measurement\<close> clears every container.\<close>

definition restart_measurement :: "RTTAggregator \<Rightarrow> RTTAggregator" where
  "restart_measurement s =
     s\<lparr>current_best_rtt := Map.empty, current_worst_rtt := Map.empty,
       all_time_worst_rtt := Map.empty, measure_count := Map.empty,
       missed_answers := Map.empty, received_ids := [], last_msg_timestamp := Map.empty\<rparr>"

text \<open>The four reference parameters of \<open>get_rtt\<close>.\<close>

record rtt_out =
  out_current_best_rtt :: u64
  out_current_worst_rtt :: u64
  out_all_time_worst_rtt :: u64
  out_missed_answers :: real

text \<open>
  \<open>get_rtt\<close> returns its \<open>bool\<close>, the reference parameters after the call, the
  aggregator (its reads go through \<open>operator[]\<close>) and what it logged.
\<close>

definition get_rtt ::
  "RTTAggregator \<Rightarrow> string \<Rightarrow> rtt_out \<Rightarrow> bool \<times> rtt_out \<times> RTTAggregator \<times> effect list" where
  "get_rtt s pid out =
     (if current_best_rtt s pid = None then (False, out, s, [])
      else
        (let out3 = out\<lparr>out_current_best_rtt := subscript (current_best_rtt s) pid,
                         out_current_worst_rtt := subscript (current_worst_rtt s) pid,
                         out_all_time_worst_rtt := subscript (all_time_worst_rtt s) pid\<rparr>;
             s3 = s\<lparr>current_worst_rtt := touch (current_worst_rtt s) pid,
                     all_time_worst_rtt := touch (all_time_worst_rtt s) pid,
                     measure_count := touch (measure_count s) pid\<rparr>
         in if subscript (measure_count s) pid \<le> 0
            then (True, out3\<lparr>out_missed_answers := 0\<rparr>, s3,
                  [LogWrite 1 ''Warning: An overflow occured in RTT aggregator, missed answers data is certainly wrong''])
            else (True,
                  out3\<lparr>out_missed_answers :=
                          subscript (missed_answers s) pid / subscript (measure_count s) pid\<rparr>,
                  s3\<lparr>missed_answers := touch (missed_answers s) pid\<rparr>, [])))"

text \<open>
  Modelled from the spec: \<open>RTTTool::measure_rtt\<close> is declared in \<open>RTTTool.hpp\<close>, its
  body is not among the sources. It returns a \<open>std::map\<close> (each class at most once),
  and "at window close, for each class: best = min(list), worst = max(list)", so the
  first component of each pair is at most the second.
\<close>

definition measured_ok :: "(string \<times> u64 \<times> u64) list \<Rightarrow> bool" where
  "measured_ok rtt =
     (distinct (map fst rtt) \<and> list_all (\<lambda>(k, best, worst). best \<le> worst) rtt)"

text \<open>
  The states the aggregator can be in: constructed empty, then any sequence of
  measurement rounds, restarts and queries.
\<close>

inductive reachable :: "RTTAggregator \<Rightarrow> bool" where
  reachable_init: "reachable rtt_empty"
| reachable_round: "reachable s \<Longrightarrow> measured_ok rtt \<Longrightarrow> reachable (rtt_round rtt clock s)"
| reachable_restart: "reachable s \<Longrightarrow> reachable (restart_measurement s)"
| reachable_query: "reachable s \<Longrightarrow> reachable (fst (snd (snd (get_rtt s pid out))))"


text \<open>Everything the aggregator stores for one class.\<close>

definition entry ::
  "RTTAggregator \<Rightarrow> string \<Rightarrow>
     u64 option \<times> u64 option \<times> u64 option \<times> real option \<times> real option \<times> u64 option \<times> bool" where
  "entry s k =
     (current_best_rtt s k, current_worst_rtt s k, all_time_worst_rtt s k,
      measure_count s k, missed_answers s k, last_msg_timestamp s k, k \<in> set (received_ids s))"

text \<open>What holds of the entry of one class in every reachable state.\<close>

definition entry_ok :: "RTTAggregator \<Rightarrow> string \<Rightarrow> bool" where
  "entry_ok s k =
     (case entry s k of
        (Some b, Some w, Some a, Some mc, Some ma, Some ts, True) \<Rightarrow>
          b \<le> w \<and> w \<le> a \<and> 1 \<le> mc \<and> 0 \<le> ma \<and> ma \<le> mc
      | (None, None, None, None, None, None, False) \<Rightarrow> True
      | _ \<Rightarrow> False)"

definition rtt_inv :: "RTTAggregator \<Rightarrow> bool" where
  "rtt_inv s = (distinct (received_ids s) \<and> (\<forall>k. entry_ok s k))"

section \<open>Facts about \<open>stop\<close> and the start negotiation\<close>

lemma first_valid_append:
  "first_valid (xs @ ys) = (case first_valid xs of Some v \<Rightarrow> Some v | None \<Rightarrow> first_valid ys)"
  by (induction xs) auto

lemma stop_keeps_TimerFD_fields [simp]:
  "stop_signal (stop t) = stop_signal t"
  "start_point_initialized (stop t) = start_point_initialized t"
  "start_point (stop t) = start_point t"
  "wait_for_start (stop t) = wait_for_start t"
  by (simp_all add: stop_def stop_join_def Let_def)

lemma stop_keeps_Timer_fields [simp]:
  "period_nanoseconds (stop t) = period_nanoseconds t"
  "offset_nanoseconds (stop t) = offset_nanoseconds t"
  "node_id (stop t) = node_id t"
  "m_update_callback (stop t) = m_update_callback t"
  "m_stop_callback (stop t) = m_stop_callback t"
  "active (stop t) = False"
  "cancelled (stop t) = False"
  "joinable (stop t) = False"
  by (simp_all add: stop_def stop_join_def Let_def)

lemma receiveStartTime_stop:
  "first_valid (concat (map taken negs)) = Some (stop_signal t) \<Longrightarrow>
   \<exists>t' fx. receiveStartTime t negs = (Some (stop_signal t), t', fx)
     \<and> (\<forall>d. Callback d \<notin> set fx)
     \<and> stop_signal t' = stop_signal t
     \<and> start_point_initialized t' = start_point_initialized t"
proof (induction negs arbitrary: t)
  case Nil
  then show ?case by simp
next
  case (Cons e es)
  show ?case
  proof (cases "active t")
    case False
    then show ?thesis by simp
  next
    case True
    let ?t' = "if stop_called e then stop t else t"
    show ?thesis
    proof (cases "first_valid (taken e)")
      case (Some v)
      with Cons.prems have "v = stop_signal t" by (simp add: first_valid_append)
      with Some True show ?thesis by (simp add: Let_def)
    next
      case None
      with Cons.prems have "first_valid (concat (map taken es)) = Some (stop_signal ?t')"
        by (simp add: first_valid_append)
      from Cons.IH [OF this] obtain t'' fx where
        "receiveStartTime ?t' es = (Some (stop_signal ?t'), t'', fx)"
        "\<forall>d. Callback d \<notin> set fx" "stop_signal t'' = stop_signal ?t'"
        "start_point_initialized t'' = start_point_initialized ?t'"
        by blast
      with None True show ?thesis by (simp add: Let_def)
    qed
  qed
qed

section \<open>Deadlines without overflow\<close>

lemma advance_no_overflow:
  fixes d P ta :: u64
  assumes "d \<le> ta" and "unat ta + unat P < 2 ^ 64"
  shows "unat (d + P) = unat d + unat P"
proof -
  from assms(1) have "unat d \<le> unat ta" by (simp add: word_le_nat_alt)
  with assms(2) have "unat d + unat P < 2 ^ LENGTH(64)" by simp
  then show ?thesis by (simp only: unat_add_lem)
qed

lemma skipped_product:
  fixes d1 P ta :: u64
  assumes "d1 \<le> ta" and "unat ta + unat P < 2 ^ 64" and "P \<noteq> 0"
  shows "unat (missed_periods P ta d1 * P) = ((unat ta - unat d1) div unat P + 1) * unat P"
    and "((unat ta - unat d1) div unat P + 1) * unat P + unat d1 < 2 ^ 64"
proof -
  let ?q = "(unat ta - unat d1) div unat P"
  let ?k = "missed_periods P ta d1"
  have le: "unat d1 \<le> unat ta" using assms(1) by (simp add: word_le_nat_alt)
  have P: "0 < unat P" using assms(3) by (simp add: unat_gt_0)
  have sub: "unat (ta - d1) = unat ta - unat d1" using assms(1) by (simp add: unat_sub)
  have q: "unat ((ta - d1) div P) = ?q" by (simp add: unat_div sub)
  have qP: "?q * unat P \<le> unat ta - unat d1" by simp
  have ql: "?q \<le> unat ta - unat d1" by (rule div_le_dividend)
  have "?q + 1 < 2 ^ 64" using ql assms(2) P le by linarith
  then have "unat ((ta - d1) div P) + unat (1 :: u64) < 2 ^ LENGTH(64)" using q by simp
  then have "unat ((ta - d1) div P + 1) = unat ((ta - d1) div P) + unat (1 :: u64)"
    by (simp only: unat_add_lem)
  then have k: "unat ?k = ?q + 1" using q by (simp add: missed_periods_def)
  have "(?q + 1) * unat P = ?q * unat P + unat P" by simp
  then show b: "(?q + 1) * unat P + unat d1 < 2 ^ 64" using qP assms(2) le by linarith
  then have "unat ?k * unat P < 2 ^ LENGTH(64)" using k by simp
  then have "unat (?k * P) = unat ?k * unat P" by (simp only: unat_mult_lem)
  then show "unat (?k * P) = (?q + 1) * unat P" using k by simp
qed

lemma skip_no_overflow:
  fixes d1 P ta :: u64
  assumes "d1 \<le> ta" and "unat ta + unat P < 2 ^ 64" and "P \<noteq> 0"
  shows "unat (d1 + missed_periods P ta d1 * P)
           = unat d1 + ((unat ta - unat d1) div unat P + 1) * unat P"
proof -
  let ?k = "missed_periods P ta d1"
  note m = skipped_product [OF assms]
  have "unat d1 + unat (?k * P) < 2 ^ LENGTH(64)" using m by simp
  then have "unat (d1 + ?k * P) = unat d1 + unat (?k * P)" by (simp only: unat_add_lem)
  then show ?thesis using m(1) by simp
qed

section \<open>The first deadline of the real-time timer\<close>

text \<open>
  Where the subtraction does not wrap (offset at most start point) and the horizon of the clock is more
  than a period away, the first deadline is the first instant of the grid at or after the
  start point.
\<close>

lemma first_deadline_on_grid:
  fixes P off S :: u64
  assumes "off < P" and "off \<le> S" and "unat S + unat P < 2 ^ 64"
  shows "S \<le> first_deadline P off S"
    and "(first_deadline P off S - off) mod P = 0"
    and "unat (first_deadline P off S) < unat S + unat P"
proof -
  have P0: "P \<noteq> 0" using assms(1) by auto
  have P: "0 < unat P" using P0 by (simp add: unat_gt_0)
  have le: "unat off \<le> unat S" using assms(2) by (simp add: word_le_nat_alt)
  have sub: "unat (S - off) = unat S - unat off" using assms(2) by (simp add: unat_sub)
  have md: "unat ((S - off) mod P) = (unat S - unat off) mod unat P" by (simp add: unat_mod sub)
  define q where "q = (unat S - unat off) div unat P"
  define r where "r = (unat S - unat off) mod unat P"
  have split: "unat S - unat off = q * unat P + r" by (simp add: q_def r_def)
  have e: "(q + 1) * unat P = q * unat P + unat P" by simp
  have "S \<le> first_deadline P off S \<and> (first_deadline P off S - off) mod P = 0
        \<and> unat (first_deadline P off S) < unat S + unat P"
  proof (cases "(S - off) mod P = 0")
    case True
    then show ?thesis using P by (simp add: first_deadline_def)
  next
    case False
    then have "0 < unat ((S - off) mod P)" by (simp add: unat_gt_0)
    then have r: "0 < r" using md by (simp add: r_def)
    have rp: "r < unat P" using P by (simp add: r_def)
    have fd: "first_deadline P off S = off + missed_periods P S off * P"
      using False by (simp add: first_deadline_def missed_periods_def)
    have u: "unat (first_deadline P off S) = unat off + (q + 1) * unat P"
      unfolding fd q_def using assms(2,3) P0 by (rule skip_no_overflow)
    have "unat S < unat off + (q + 1) * unat P" using split rp le e by linarith
    then have 1: "S \<le> first_deadline P off S" using u by (simp add: word_le_nat_alt)
    have "unat off + (q + 1) * unat P < unat S + unat P" using split r le e by linarith
    then have 3: "unat (first_deadline P off S) < unat S + unat P" using u by simp
    have "first_deadline P off S - off = missed_periods P S off * P" unfolding fd by simp
    then have "unat ((first_deadline P off S - off) mod P) = ((q + 1) * unat P) mod unat P"
      using skipped_product(1) [OF assms(2,3) P0] by (simp add: unat_mod q_def)
    then have "unat ((first_deadline P off S - off) mod P) = 0" by simp
    then have 2: "(first_deadline P off S - off) mod P = 0" by (simp add: unat_eq_zero)
    show ?thesis using 1 2 3 by simp
  qed
  then show "S \<le> first_deadline P off S" "(first_deadline P off S - off) mod P = 0"
    "unat (first_deadline P off S) < unat S + unat P" by simp_all
qed

text \<open>
  C1. The claim: for a period \<open>P > 0\<close>, an offset \<open>O < P\<close> and every start instant
  \<open>S\<close>, also when \<open>S < O\<close>, the first deadline handed to the update callback is the
  first instant \<open>d \<ge> S\<close> with \<open>(d - O) mod P = 0\<close>.

  With the period 200 ms and the offset 5 ms of the accuracy test and a start trigger of
  1 ms, \<open>S - O\<close> wraps around, and so does the multiplication by the period: the callback
  receives 95 448 384 ns, which is not on the grid (neither \<open>(d - O) mod P\<close> nor
  \<open>d mod P - O\<close> vanishes), although 5 000 000 ns is a grid instant at or after
  \<open>S\<close> and before it.
\<close>

theorem C1_first_deadline_off_grid:
  "start (TimerFD_new ''asdfg'' 200000000 5000000 True TRIGGER_STOP_SYMBOL) True 0
     [\<lparr>taken = [Sample True 1000000], stop_called = False\<rparr>]
     [\<lparr>taken = [], stop_called = True, t_wake = 95448384, t_after = 95448390\<rparr>]
   = (Returned,
      stop ((TimerFD_new ''asdfg'' 200000000 5000000 True TRIGGER_STOP_SYMBOL)
              \<lparr>active := True, m_update_callback := True, start_point := 1000000,
               start_point_initialized := True\<rparr>),
      [WriteReadyStatus ''asdfg'' 0, Callback 95448384])
   \<and> first_deadline 200000000 5000000 1000000 = 95448384
   \<and> (95448384 - 5000000) mod 200000000 \<noteq> (0 :: u64)
   \<and> 95448384 mod 200000000 \<noteq> (5000000 :: u64)
   \<and> (1000000 :: u64) \<le> 5000000 \<and> (5000000 :: u64) < 95448384
   \<and> (5000000 - 5000000) mod 200000000 = (0 :: u64)"
  by (simp add: start_def TimerFD_new_def run_from_start_point_def first_deadline_def
        loop_body_def missed_periods_def stop_def stop_join_def TRIGGER_STOP_SYMBOL_def)

section \<open>The main loop of the real-time timer\<close>

lemma callbacks_append: "callbacks (fx @ fx') = callbacks fx @ callbacks fx'"
  by (induction fx rule: callbacks.induct) simp_all

lemma missed_logs_append: "missed_logs (fx @ fx') = missed_logs fx @ missed_logs fx'"
  by (induction fx rule: missed_logs.induct) simp_all

lemma loop_body_keeps:
  "period_nanoseconds (fst (loop_body t d e)) = period_nanoseconds t"
  "m_update_callback (fst (loop_body t d e)) = m_update_callback t"
  by (simp_all add: loop_body_def Let_def)

lemma loop_body_callbacks:
  "callbacks (snd (snd (loop_body t d e)))
     = (if d \<le> t_wake e \<and> m_update_callback t then [d] else [])"
  by (simp add: loop_body_def Let_def callbacks_append)

lemma loop_body_wait: "\<not> d \<le> t_wake e \<Longrightarrow> snd (loop_body t d e) = (d, [])"
  by (simp add: loop_body_def)

lemma loop_body_advance:
  assumes "d \<le> t_wake e" and "clock_ok (period_nanoseconds t) e" and "period_nanoseconds t \<noteq> 0"
  shows "\<exists>m\<ge>1. unat (fst (snd (loop_body t d e))) = unat d + m * unat (period_nanoseconds t)"
proof -
  let ?P = "period_nanoseconds t"
  from assms(2) have now: "unat (t_wake e) + unat ?P < 2 ^ 64"
    and nov: "unat (t_after e) + unat ?P < 2 ^ 64"
    by (simp_all add: clock_ok_def)
  have d1: "unat (d + ?P) = unat d + unat ?P" using assms(1) now by (rule advance_no_overflow)
  show ?thesis
  proof (cases "d + ?P \<le> t_after e")
    case True
    let ?m = "(unat (t_after e) - unat (d + ?P)) div unat ?P + 1"
    have "unat (d + ?P + missed_periods ?P (t_after e) (d + ?P) * ?P)
            = unat (d + ?P) + ?m * unat ?P"
      using True nov assms(3) by (rule skip_no_overflow)
    then have "unat (fst (snd (loop_body t d e))) = unat d + (?m + 1) * unat ?P"
      using True assms(1) d1 by (simp add: loop_body_def Let_def)
    then show ?thesis by (intro exI [of _ "?m + 1"]) simp
  next
    case False
    then have "unat (fst (snd (loop_body t d e))) = unat d + 1 * unat ?P"
      using assms(1) d1 by (simp add: loop_body_def Let_def)
    then show ?thesis by (intro exI [of _ 1]) simp
  qed
qed

lemma main_loop_effects:
  "active t \<Longrightarrow> loop_body t d e = (t', d', fx) \<Longrightarrow>
   snd (snd (main_loop t d (e # es))) = fx @ snd (snd (main_loop t' d' es))"
  "\<not> active t \<Longrightarrow> snd (snd (main_loop t d ticks)) = []"
  by (cases ticks; simp split: prod.splits)+

lemma main_loop_no_callback:
  "\<not> m_update_callback t \<Longrightarrow> callbacks (snd (snd (main_loop t d ticks))) = []"
proof (induction ticks arbitrary: t d)
  case Nil
  then show ?case by simp
next
  case (Cons e es)
  obtain t' d' fx where b: "loop_body t d e = (t', d', fx)" by (cases "loop_body t d e")
  have "\<not> m_update_callback t'" using loop_body_keeps(2) [of t d e] b Cons.prems by simp
  then have "callbacks (snd (snd (main_loop t' d' es))) = []" by (rule Cons.IH)
  moreover have "callbacks fx = []" using loop_body_callbacks [of t d e] b Cons.prems by simp
  ultimately show ?case
    using b main_loop_effects(1) [of t d e t' d' fx es] main_loop_effects(2) [of t d "e # es"]
    by (cases "active t") (simp_all add: callbacks_append)
qed

lemma main_loop_in_step:
  assumes "period_nanoseconds t \<noteq> 0" and "list_all (clock_ok (period_nanoseconds t)) ticks"
  shows "in_step (unat (period_nanoseconds t)) (map unat (callbacks (snd (snd (main_loop t d ticks)))))
         \<and> (\<forall>c \<in> set (take 1 (callbacks (snd (snd (main_loop t d ticks))))). c = d)"
  using assms
proof (induction ticks arbitrary: t d)
  case Nil
  then show ?case by simp
next
  case (Cons e es)
  let ?P = "period_nanoseconds t"
  obtain t' d' fx where b: "loop_body t d e = (t', d', fx)" by (cases "loop_body t d e")
  have P': "period_nanoseconds t' = ?P" using loop_body_keeps(1) [of t d e] b by simp
  from Cons.prems have ok: "clock_ok ?P e" and oks: "list_all (clock_ok ?P) es" by simp_all
  let ?rest = "callbacks (snd (snd (main_loop t' d' es)))"
  have IH: "in_step (unat ?P) (map unat ?rest) \<and> (\<forall>c \<in> set (take 1 ?rest). c = d')"
    using Cons.IH [of t' d'] Cons.prems(1) oks P' by simp
  show ?case
  proof (cases "active t")
    case False
    then show ?thesis using main_loop_effects(2) [of t d "e # es"] by simp
  next
    case True
    then have cs: "callbacks (snd (snd (main_loop t d (e # es)))) = callbacks fx @ ?rest"
      using b main_loop_effects(1) [of t d e t' d' fx es] by (simp add: callbacks_append)
    show ?thesis
    proof (cases "d \<le> t_wake e \<and> m_update_callback t")
      case False
      show ?thesis
      proof (cases "d \<le> t_wake e")
        case True
        with False have "\<not> m_update_callback t" by simp
        then show ?thesis using main_loop_no_callback [of t d "e # es"] by simp
      next
        case False
        then have "d' = d" "callbacks fx = []"
          using loop_body_wait [of d e t] loop_body_callbacks [of t d e] b by simp_all
        then show ?thesis using cs IH by simp
      qed
    next
      case True
      then have fx: "callbacks fx = [d]" using loop_body_callbacks [of t d e] b by simp
      from True ok Cons.prems(1) obtain m where m: "1 \<le> m" "unat d' = unat d + m * unat ?P"
        using loop_body_advance [of d e t] b by auto
      have P: "0 < unat ?P" using Cons.prems(1) by (simp add: unat_gt_0)
      have lt: "unat d < unat d'" using m P by simp
      have md: "(unat d' - unat d) mod unat ?P = 0" using m by simp
      show ?thesis
      proof (cases ?rest)
        case Nil
        then show ?thesis using cs fx by simp
      next
        case (Cons c cs')
        with IH have "c = d'" by simp
        with IH Cons have "in_step (unat ?P) (unat d' # map unat cs')" by auto
        then show ?thesis using cs fx Cons \<open>c = d'\<close> lt md by simp
      qed
    qed
  qed
qed

lemma in_step_nth:
  "in_step P ds \<Longrightarrow> Suc i < length ds \<Longrightarrow> 0 < P \<Longrightarrow>
   \<exists>k\<ge>1. ds ! Suc i = ds ! i + k * P"
proof (induction P ds arbitrary: i rule: in_step.induct)
  case (1 P a b ds)
  show ?case
  proof (cases i)
    case 0
    from 1(2) have "a < b" "(b - a) mod P = 0" by simp_all
    then obtain k where k: "b - a = P * k" by (auto simp add: mod_eq_0_iff_dvd)
    with \<open>a < b\<close> have "1 \<le> k" by (cases k) simp_all
    moreover have "b = a + k * P" using k \<open>a < b\<close> by (simp add: mult.commute)
    ultimately show ?thesis using 0 by auto
  next
    case (Suc j)
    then show ?thesis using 1 by simp
  qed
qed simp_all


lemma main_loop_ticks:
  assumes "period_nanoseconds t \<noteq> 0" and "list_all (clock_ok (period_nanoseconds t)) ticks"
    and "Suc i < length (callbacks (snd (snd (main_loop t d ticks))))"
  shows "\<exists>k\<ge>1. unat (callbacks (snd (snd (main_loop t d ticks))) ! Suc i)
                  = unat (callbacks (snd (snd (main_loop t d ticks))) ! i)
                    + k * unat (period_nanoseconds t)"
proof -
  let ?cs = "callbacks (snd (snd (main_loop t d ticks)))"
  have "in_step (unat (period_nanoseconds t)) (map unat ?cs)"
    using main_loop_in_step [OF assms(1,2)] by simp
  moreover have "Suc i < length (map unat ?cs)" using assms(3) by simp
  moreover have "0 < unat (period_nanoseconds t)" using assms(1) by (simp add: unat_gt_0)
  ultimately have "\<exists>k\<ge>1. map unat ?cs ! Suc i = map unat ?cs ! i + k * unat (period_nanoseconds t)"
    by (rule in_step_nth)
  then show ?thesis using assms(3) by simp
qed

lemma static_cast_int_small:
  assumes "unat k < 2147483648"
  shows "static_cast_int k = int (unat k)"
proof -
  have c: "sint (ucast k :: 32 word) = signed_take_bit (LENGTH(32) - Suc 0) (uint k)"
    by (rule signed_ucast_eq)
  have n: "LENGTH(32) - Suc 0 = 31" by simp
  have "k < 2147483648" using assms by (simp add: word_less_nat_alt)
  then have "uint k < uint (2147483648 :: u64)" by (simp only: word_less_def)
  then have lt: "uint k < 2 ^ 31" by simp
  have "(- (2 ^ 31) :: int) \<le> 0" by simp
  also have "0 \<le> uint k" by (rule uint_nonnegative)
  finally have ge: "- (2 ^ 31) \<le> uint k" .
  have "signed_take_bit 31 (uint k) = uint k"
    using ge lt by (rule signed_take_bit_int_eq_self)
  then have "sint (ucast k :: 32 word) = uint k" using c unfolding n by (simp only:)
  moreover have "uint k = int (unat k)" by (rule uint_nat)
  ultimately show ?thesis unfolding static_cast_int_def by (simp only:)
qed

lemma main_loop_first_callback:
  "callbacks (snd (snd (main_loop t d ticks))) = []
   \<or> hd (callbacks (snd (snd (main_loop t d ticks)))) = d"
proof (induction ticks arbitrary: t d)
  case Nil
  then show ?case by simp
next
  case (Cons e es)
  obtain t' d' fx where b: "loop_body t d e = (t', d', fx)" by (cases "loop_body t d e")
  show ?case
  proof (cases "active t")
    case False
    then show ?thesis using main_loop_effects(2) [of t d "e # es"] by simp
  next
    case True
    then have cs: "callbacks (snd (snd (main_loop t d (e # es))))
                     = callbacks fx @ callbacks (snd (snd (main_loop t' d' es)))"
      using b main_loop_effects(1) [of t d e t' d' fx es] by (simp add: callbacks_append)
    show ?thesis
    proof (cases "d \<le> t_wake e")
      case True
      show ?thesis
      proof (cases "m_update_callback t")
        case True
        with \<open>d \<le> t_wake e\<close> have "callbacks fx = [d]"
          using loop_body_callbacks [of t d e] b by simp
        then show ?thesis using cs by simp
      next
        case False
        then show ?thesis using main_loop_no_callback [of t d "e # es"] by simp
      qed
    next
      case False
      then have "d' = d" "callbacks fx = []"
        using loop_body_wait [of d e t] loop_body_callbacks [of t d e] b by simp_all
      then show ?thesis using cs Cons.IH [of t' d'] by simp
    qed
  qed
qed

lemma main_loop_next_callback:
  assumes "active t" and "m_update_callback t" and "d \<le> t_wake e"
  shows "\<exists>rest. callbacks (snd (snd (main_loop t d (e # es)))) = d # rest
           \<and> (rest = [] \<or> hd rest = fst (snd (loop_body t d e)))"
proof -
  obtain t' d' fx where b: "loop_body t d e = (t', d', fx)" by (cases "loop_body t d e")
  have "callbacks fx = [d]" using assms(2,3) loop_body_callbacks [of t d e] b by simp
  then have "callbacks (snd (snd (main_loop t d (e # es))))
               = d # callbacks (snd (snd (main_loop t' d' es)))"
    using assms(1) b main_loop_effects(1) [of t d e t' d' fx es] by (simp add: callbacks_append)
  then show ?thesis using main_loop_first_callback [of t' d' es] b by auto
qed

text \<open>
  C2, as claimed: the warning is logged with \<open>k = (t' - d) div P + 1\<close>, and
  consecutive callback deadlines satisfy \<open>d\<^sub>i\<^sub>+\<^sub>1 = d\<^sub>i + k * P\<close> for an integer
  \<open>k \<ge> 1\<close>, so that they strictly increase. With a period of 1 ns and a callback that
  takes \<open>2 ^ 31\<close> ns, \<open>k\<close> is 2147483648 and the number logged is \<open>- 2147483648\<close>.
  With a period of 100 ns and a clock 50 ns before \<open>2 ^ 64\<close>, the deadline wraps
  around: the callback is called for \<open>2 ^ 64 - 50\<close> and then for 34.
\<close>

theorem C2_logged_number_and_wrap_counterexample:
  "missed_logs (snd (snd (loop_body
      ((TimerFD_new ''rt'' 1 0 False TRIGGER_STOP_SYMBOL)\<lparr>active := True, m_update_callback := True\<rparr>) 0
      \<lparr>taken = [], stop_called = False, t_wake = 0, t_after = 2147483648\<rparr>))) = [- 2147483648]
   \<and> ((2147483648 - (0 + 1)) div 1 + 1 :: u64) = 2147483648
   \<and> callbacks (snd (snd (main_loop
      ((TimerFD_new ''rt'' 100 0 False TRIGGER_STOP_SYMBOL)\<lparr>active := True, m_update_callback := True\<rparr>)
      18446744073709551566
      [\<lparr>taken = [], stop_called = False, t_wake = 18446744073709551566, t_after = 18446744073709551576\<rparr>,
       \<lparr>taken = [], stop_called = False, t_wake = 18446744073709551586, t_after = 18446744073709551587\<rparr>])))
      = [18446744073709551566, 34]
   \<and> \<not> (18446744073709551566 :: u64) < 34"
  by (simp add: loop_body_def TimerFD_new_def missed_periods_def static_cast_int_def)

text \<open>
  C2, as the code has it. One iteration whose first clock reading has reached the
  deadline \<open>d\<close>: if the reading \<open>t'\<close> after the callback has reached \<open>d + P\<close>,
  exactly one missed-period warning is logged, its number is \<open>static_cast<int>(k)\<close>
  for \<open>k = (t' - (d + P)) div P + 1\<close> (which is \<open>k\<close> itself as long as
  \<open>k < 2 ^ 31\<close>), the deadline becomes \<open>d + P + k * P\<close> in 64-bit arithmetic, and
  the callback has been called for \<open>d\<close> only; otherwise nothing is logged and the
  deadline becomes \<open>d + P\<close>. The deadline the iteration leaves is the one the next
  callback of the run receives, so no callback is made for a skipped period. For a run
  of the loop with a period that is not 0 and a clock that stays more than a period
  away from \<open>2 ^ 64\<close>: each deadline handed to the callback is the previous one plus
  \<open>k * P\<close> for some \<open>k \<ge> 1\<close>, hence later.
\<close>

theorem C2_missed_period_recovery:
  "(d \<le> t_wake e \<and> d + period_nanoseconds t \<le> t_after e \<longrightarrow>
      fst (snd (loop_body t d e))
        = d + period_nanoseconds t
          + ((t_after e - (d + period_nanoseconds t)) div period_nanoseconds t + 1)
            * period_nanoseconds t
      \<and> missed_logs (snd (snd (loop_body t d e)))
          = [static_cast_int
               ((t_after e - (d + period_nanoseconds t)) div period_nanoseconds t + 1)]
      \<and> callbacks (snd (snd (loop_body t d e))) = (if m_update_callback t then [d] else []))
   \<and> (unat k < 2147483648 \<longrightarrow> static_cast_int k = int (unat k))
   \<and> (d \<le> t_wake e \<and> \<not> d + period_nanoseconds t \<le> t_after e \<longrightarrow>
      fst (snd (loop_body t d e)) = d + period_nanoseconds t
      \<and> missed_logs (snd (snd (loop_body t d e))) = []
      \<and> callbacks (snd (snd (loop_body t d e))) = (if m_update_callback t then [d] else []))
   \<and> (active t \<and> m_update_callback t \<and> d \<le> t_wake e \<longrightarrow>
      (\<exists>rest. callbacks (snd (snd (main_loop t d (e # es)))) = d # rest
         \<and> (rest = [] \<or> hd rest = fst (snd (loop_body t d e)))))
   \<and> (period_nanoseconds t \<noteq> 0 \<and> list_all (clock_ok (period_nanoseconds t)) ticks
        \<and> Suc i < length (callbacks (snd (snd (main_loop t d ticks)))) \<longrightarrow>
      (\<exists>k\<ge>1. unat (callbacks (snd (snd (main_loop t d ticks))) ! Suc i)
                = unat (callbacks (snd (snd (main_loop t d ticks))) ! i)
                  + k * unat (period_nanoseconds t))
      \<and> callbacks (snd (snd (main_loop t d ticks))) ! i
          < callbacks (snd (snd (main_loop t d ticks))) ! Suc i)"
proof (intro conjI impI)
  assume a: "period_nanoseconds t \<noteq> 0 \<and> list_all (clock_ok (period_nanoseconds t)) ticks
        \<and> Suc i < length (callbacks (snd (snd (main_loop t d ticks))))"
  then show k: "\<exists>k\<ge>1. unat (callbacks (snd (snd (main_loop t d ticks))) ! Suc i)
                = unat (callbacks (snd (snd (main_loop t d ticks))) ! i)
                  + k * unat (period_nanoseconds t)"
    using main_loop_ticks [of t ticks i d] by blast
  from a have "0 < unat (period_nanoseconds t)" by (simp add: unat_gt_0)
  with k show "callbacks (snd (snd (main_loop t d ticks))) ! i
          < callbacks (snd (snd (main_loop t d ticks))) ! Suc i"
    by (auto simp add: word_less_nat_alt)
next
  assume "unat k < 2147483648"
  then show "static_cast_int k = int (unat k)" by (rule static_cast_int_small)
next
  assume "active t \<and> m_update_callback t \<and> d \<le> t_wake e"
  then show "\<exists>rest. callbacks (snd (snd (main_loop t d (e # es)))) = d # rest
         \<and> (rest = [] \<or> hd rest = fst (snd (loop_body t d e)))"
    using main_loop_next_callback [of t d e es] by blast
qed (simp_all add: loop_body_def Let_def missed_periods_def callbacks_append missed_logs_append)

theorem C2_missed_period_recovery_witness:
  "((1000000000 :: u64) \<le> 1000000000 \<and> (1000000000 :: u64) + 100000000 \<le> 1250000000)
   \<and> snd (loop_body ((TimerFD_new ''rt'' 100000000 0 False TRIGGER_STOP_SYMBOL)
                       \<lparr>active := True, m_update_callback := True\<rparr>) 1000000000
            \<lparr>taken = [], stop_called = False, t_wake = 1000000000, t_after = 1250000000\<rparr>)
       = (1300000000, [Callback 1000000000, LogPeriodsMissed 2, LogTimeMeasurement])
   \<and> unat (2 :: u64) < 2147483648 \<and> static_cast_int 2 = 2
   \<and> (active ((TimerFD_new ''rt'' 100000000 0 False TRIGGER_STOP_SYMBOL)
                       \<lparr>active := True, m_update_callback := True\<rparr>)
      \<and> m_update_callback ((TimerFD_new ''rt'' 100000000 0 False TRIGGER_STOP_SYMBOL)
                       \<lparr>active := True, m_update_callback := True\<rparr>))
   \<and> list_all (clock_ok 100000000)
        [\<lparr>taken = [], stop_called = False, t_wake = 1000000000, t_after = 1250000000\<rparr>,
         \<lparr>taken = [], stop_called = False, t_wake = 1300000001, t_after = 1300000002\<rparr>]
   \<and> callbacks (snd (snd (main_loop ((TimerFD_new ''rt'' 100000000 0 False TRIGGER_STOP_SYMBOL)
                       \<lparr>active := True, m_update_callback := True\<rparr>) 1000000000
        [\<lparr>taken = [], stop_called = False, t_wake = 1000000000, t_after = 1250000000\<rparr>,
         \<lparr>taken = [], stop_called = False, t_wake = 1300000001, t_after = 1300000002\<rparr>])))
       = [1000000000, 1300000000]
   \<and> (\<exists>k\<ge>1. unat (1300000000 :: u64) = unat (1000000000 :: u64) + k * unat (100000000 :: u64))"
proof -
  let ?t = "(TimerFD_new ''rt'' 100000000 0 False TRIGGER_STOP_SYMBOL)
                       \<lparr>active := True, m_update_callback := True\<rparr>"
  let ?e1 = "\<lparr>taken = [], stop_called = False, t_wake = 1000000000 :: u64, t_after = 1250000000 :: u64\<rparr>"
  let ?e2 = "\<lparr>taken = [], stop_called = False, t_wake = 1300000001 :: u64, t_after = 1300000002 :: u64\<rparr>"
  have b: "snd (loop_body ?t 1000000000 ?e1)
             = (1300000000, [Callback 1000000000, LogPeriodsMissed 2, LogTimeMeasurement])"
    by (simp add: loop_body_def TimerFD_new_def missed_periods_def static_cast_int_def)
  have c: "callbacks (snd (snd (main_loop ?t 1000000000 [?e1, ?e2]))) = [1000000000, 1300000000]"
    by (simp add: loop_body_def TimerFD_new_def missed_periods_def static_cast_int_def)
  have ok: "list_all (clock_ok 100000000) [?e1, ?e2]"
    by (simp add: clock_ok_def)
  have P: "period_nanoseconds ?t = 100000000" by (simp add: TimerFD_new_def)
  have f: "active ?t \<and> m_update_callback ?t" by (simp add: TimerFD_new_def)
  show ?thesis
    using C2_missed_period_recovery [where t = ?t and d = 1000000000 and e = ?e1
            and ticks = "[?e1, ?e2]" and i = 0 and k = 2 and es = "[?e2]"] b c ok f
    unfolding P by simp
qed

section \<open>Construction\<close>

text \<open>
  C6, as claimed: a real-time timer whose offset is not below its period is refused with
  the exception \<open>ErrorConfiguration\<close>. The constructor does not throw: it ends the
  process.
\<close>

theorem C6_ctor_counterexample:
  "fst (TimerFD_ctor ''rt'' 5 5 True TRIGGER_STOP_SYMBOL) = Exited EXIT_FAILURE
   \<and> fst (TimerFD_ctor ''rt'' 5 5 True TRIGGER_STOP_SYMBOL) \<noteq> Threw ErrorConfiguration"
  by (simp add: TimerFD_ctor_def)


text \<open>
  C6, as the code has it: with \<open>offset \<ge> period\<close> the constructor of the real-time
  timer logs, writes to \<open>stderr\<close> and exits the process with \<open>EXIT_FAILURE\<close>, so that
  no timer exists and nothing is thrown; with \<open>offset < period\<close> it constructs the
  timer. The constructor of the simulated timer accepts every offset.
\<close>

theorem C6_ctor_exits:
  "(offset \<ge> period \<longrightarrow>
      TimerFD_ctor nid period offset wfs sig =
        (Exited EXIT_FAILURE, None,
         [LogWrite 1 ''TimerFD: Offset set higher than period.'',
          Stderr ''Offset set higher than period.'']))
   \<and> (offset < period \<longrightarrow>
      TimerFD_ctor nid period offset wfs sig =
        (Returned, Some (TimerFD_new nid period offset wfs sig), []))
   \<and> TimerSimulated_ctor nid period offset =
        (Returned, Some (TimerSimulated_new nid period offset), [])
   \<and> offset_nanoseconds (TimerSimulated_new nid period offset) = offset"
  by (auto simp add: TimerFD_ctor_def TimerSimulated_ctor_def TimerSimulated_new_def)

theorem C6_ctor_exits_witness:
  "(7::u64) \<ge> 5
   \<and> TimerFD_ctor ''rt'' 5 7 True TRIGGER_STOP_SYMBOL =
        (Exited EXIT_FAILURE, None,
         [LogWrite 1 ''TimerFD: Offset set higher than period.'',
          Stderr ''Offset set higher than period.''])
   \<and> (3::u64) < 5
   \<and> TimerFD_ctor ''rt'' 5 3 True TRIGGER_STOP_SYMBOL =
        (Returned, Some (TimerFD_new ''rt'' 5 3 True TRIGGER_STOP_SYMBOL), [])
   \<and> TimerSimulated_ctor ''sim'' 5 7 = (Returned, Some (TimerSimulated_new ''sim'' 5 7), [])
   \<and> offset_nanoseconds (TimerSimulated_new ''sim'' 5 7) = 7"
  using C6_ctor_exits [where period = 5 and offset = 7 and nid = "''rt''" and wfs = True
                          and sig = TRIGGER_STOP_SYMBOL]
        C6_ctor_exits [where period = 5 and offset = 3 and nid = "''rt''" and wfs = True
                          and sig = TRIGGER_STOP_SYMBOL]
        C6_ctor_exits [where period = 5 and offset = 7 and nid = "''sim''"]
  by simp

section \<open>A stop signal during the start negotiation\<close>

text \<open>
  On an instance whose start point has never been initialised, a stop signal as first
  valid sample of the negotiation makes \<open>start\<close> return without any callback, and
  \<open>get_start_time\<close> is 0 afterwards.
\<close>

lemma stop_during_first_negotiation:
  assumes "wait_for_start t" and "\<not> active t" and "\<not> cancelled t"
    and "\<not> start_point_initialized t"
    and "first_valid (concat (map taken negs)) = Some (stop_signal t)"
  shows "\<exists>t' fx. start t cb now negs ticks = (Returned, t', fx)
           \<and> (\<forall>d. Callback d \<notin> set fx) \<and> get_start_time t' = 0"
proof -
  let ?t2 = "t\<lparr>active := True, m_update_callback := cb\<rparr>"
  from assms(5) have "first_valid (concat (map taken negs)) = Some (stop_signal ?t2)" by simp
  from receiveStartTime_stop [OF this] obtain t3 fx where
    r: "receiveStartTime ?t2 negs = (Some (stop_signal ?t2), t3, fx)"
    and fx: "\<forall>d. Callback d \<notin> set fx"
    and s: "stop_signal t3 = stop_signal ?t2"
    and i: "start_point_initialized t3 = start_point_initialized ?t2"
    by blast
  from assms r s i have "start t cb now negs ticks = (Returned, t3\<lparr>start_point := stop_signal t\<rparr>, fx)"
    by (simp add: start_def)
  moreover from i assms(4) have "get_start_time (t3\<lparr>start_point := stop_signal t\<rparr>) = 0"
    by (simp add: get_start_time_def)
  ultimately show ?thesis using fx by blast
qed

text \<open>
  C9. The claim: when the first valid sample of the start negotiation carries the stop
  signal, \<open>start\<close> returns without calling the update callback and \<open>get_start_time\<close>
  is 0 afterwards.

  \<open>start\<close> stores the stop signal in \<open>start_point\<close> before it returns, and nothing
  ever clears \<open>start_point_initialized\<close>. The timer below has the configuration of the
  accuracy test. Its first run is started at 1 s and stopped by its callback; the run
  returns and \<open>get_start_time\<close> is 1 s. The second \<open>start\<close> on the same instance
  takes the stop signal during the negotiation: it returns without a callback, and
  \<open>get_start_time\<close> is the stop signal \<open>2 ^ 64 - 1\<close>, not 0.
\<close>

theorem C9_restart_reports_stop_signal:
  "start (TimerFD_new ''asdfg'' 200000000 5000000 True TRIGGER_STOP_SYMBOL) True 0
     [\<lparr>taken = [Sample True 1000000000], stop_called = False\<rparr>]
     [\<lparr>taken = [], stop_called = True, t_wake = 1005000000, t_after = 1005000100\<rparr>]
   = (Returned,
      stop ((TimerFD_new ''asdfg'' 200000000 5000000 True TRIGGER_STOP_SYMBOL)
              \<lparr>active := True, m_update_callback := True, start_point := 1000000000,
               start_point_initialized := True\<rparr>),
      [WriteReadyStatus ''asdfg'' 0, Callback 1005000000])
   \<and> get_start_time
        (stop ((TimerFD_new ''asdfg'' 200000000 5000000 True TRIGGER_STOP_SYMBOL)
                 \<lparr>active := True, m_update_callback := True, start_point := 1000000000,
                  start_point_initialized := True\<rparr>)) = 1000000000
   \<and> fst (start
        (stop ((TimerFD_new ''asdfg'' 200000000 5000000 True TRIGGER_STOP_SYMBOL)
                 \<lparr>active := True, m_update_callback := True, start_point := 1000000000,
                  start_point_initialized := True\<rparr>))
        True 0 [\<lparr>taken = [Sample True TRIGGER_STOP_SYMBOL], stop_called = False\<rparr>] [])
      = Returned
   \<and> snd (snd (start
        (stop ((TimerFD_new ''asdfg'' 200000000 5000000 True TRIGGER_STOP_SYMBOL)
                 \<lparr>active := True, m_update_callback := True, start_point := 1000000000,
                  start_point_initialized := True\<rparr>))
        True 0 [\<lparr>taken = [Sample True TRIGGER_STOP_SYMBOL], stop_called = False\<rparr>] []))
      = [WriteReadyStatus ''asdfg'' 0]
   \<and> get_start_time (fst (snd (start
        (stop ((TimerFD_new ''asdfg'' 200000000 5000000 True TRIGGER_STOP_SYMBOL)
                 \<lparr>active := True, m_update_callback := True, start_point := 1000000000,
                  start_point_initialized := True\<rparr>))
        True 0 [\<lparr>taken = [Sample True TRIGGER_STOP_SYMBOL], stop_called = False\<rparr>] [])))
      = 18446744073709551615"
  by (simp add: start_def TimerFD_new_def run_from_start_point_def first_deadline_def
        loop_body_def missed_periods_def stop_def stop_join_def get_start_time_def
        TRIGGER_STOP_SYMBOL_def)

section \<open>Trigger processing of the simulated timer\<close>

lemma handle_sample_callback_iff:
  "Callback c \<in> set (snd (snd (snd (handle_sample t d x)))) \<longleftrightarrow>
     m_update_callback t \<and> valid x \<and> next_start x = d \<and> c = d"
  by (auto simp add: handle_sample_def Let_def)

lemma handle_sample_match:
  "valid x \<Longrightarrow> next_start x = d \<Longrightarrow>
   handle_sample t d x =
     (Matched, t\<lparr>current_time := d\<rparr>, d + period_nanoseconds t,
      (if m_update_callback t then [Callback d] else [])
        @ [WriteReadyStatus (node_id t) (d + period_nanoseconds t)])"
  by (simp add: handle_sample_def Let_def)

lemma handle_sample_stop:
  "valid x \<Longrightarrow> next_start x \<noteq> d \<Longrightarrow> next_start x = TRIGGER_STOP_SYMBOL \<Longrightarrow>
   handle_sample t d x =
     (if m_stop_callback t then (StopSeen, t, d, [StopCallback])
      else (StopSeen, t\<lparr>active := False\<rparr>, d, []))"
  by (simp add: handle_sample_def)

lemma handle_sample_other:
  "\<not> valid x \<or> (next_start x \<noteq> d \<and> next_start x \<noteq> TRIGGER_STOP_SYMBOL) \<Longrightarrow>
   handle_sample t d x = ((if valid x then OtherValid else Invalid), t, d, [])"
  by (auto simp add: handle_sample_def)

lemma handle_samples_others:
  "list_all (\<lambda>x. \<not> valid x \<or> (next_start x \<noteq> d \<and> next_start x \<noteq> TRIGGER_STOP_SYMBOL)) xs \<Longrightarrow>
   handle_samples t d gv gn xs =
     ((if gn then DEADLINE else if gv \<or> list_ex valid xs then ANY else NONE), t, d, [])"
proof (induction xs arbitrary: gv)
  case Nil
  then show ?case by simp
next
  case (Cons x xs)
  then have x: "\<not> valid x \<or> (next_start x \<noteq> d \<and> next_start x \<noteq> TRIGGER_STOP_SYMBOL)"
    and xs: "list_all (\<lambda>x. \<not> valid x \<or> (next_start x \<noteq> d \<and> next_start x \<noteq> TRIGGER_STOP_SYMBOL)) xs"
    by simp_all
  show ?case
    using handle_sample_other [OF x, of t] Cons.IH [OF xs] by auto
qed

lemma handle_samples_callback_iff:
  "(\<exists>c. Callback c \<in> set (snd (snd (snd (handle_samples t d gv gn xs))))) \<longleftrightarrow>
     m_update_callback t \<and> (\<exists>x. find (reacts_to d) xs = Some x \<and> next_start x = d)"
proof (induction xs arbitrary: t d gv gn)
  case Nil
  then show ?case by simp
next
  case (Cons x xs)
  consider (m) "valid x" "next_start x = d"
    | (s) "valid x" "next_start x \<noteq> d" "next_start x = TRIGGER_STOP_SYMBOL"
    | (o) "\<not> valid x \<or> (next_start x \<noteq> d \<and> next_start x \<noteq> TRIGGER_STOP_SYMBOL)"
    by blast
  then show ?case
  proof cases
    case m
    have r: "reacts_to d x" using m by (simp add: reacts_to_def)
    show ?thesis
    proof (cases "m_update_callback t")
      case True
      then show ?thesis using m r
        by (auto simp add: handle_sample_match split: prod.splits)
    next
      case False
      have "\<not> (\<exists>c. Callback c \<in> set (snd (snd (snd
               (handle_samples (t\<lparr>current_time := d\<rparr>) (d + period_nanoseconds t) True True xs)))))"
        using False by (simp add: Cons.IH)
      then show ?thesis using m False
        by (auto simp add: handle_sample_match split: prod.splits)
    qed
  next
    case s
    have r: "reacts_to d x" using s by (simp add: reacts_to_def)
    show ?thesis using s r by (auto simp add: handle_sample_stop)
  next
    case o
    have r: "\<not> reacts_to d x" using o by (auto simp add: reacts_to_def)
    show ?thesis
      using r Cons.IH [of t d] handle_sample_other [OF o, of t]
      by (auto split: prod.splits)
  qed
qed

lemma handle_samples_skip:
  "list_all (\<lambda>y. \<not> reacts_to d y) pre \<Longrightarrow>
   handle_samples t d gv gn (pre @ rest) = handle_samples t d (gv \<or> list_ex valid pre) gn rest"
proof (induction pre arbitrary: gv)
  case Nil
  then show ?case by simp
next
  case (Cons y pre)
  then have y: "\<not> valid y \<or> (next_start y \<noteq> d \<and> next_start y \<noteq> TRIGGER_STOP_SYMBOL)"
    and pre: "list_all (\<lambda>y. \<not> reacts_to d y) pre"
    by (auto simp add: reacts_to_def)
  show ?case
    using handle_sample_other [OF y, of t] Cons.IH [OF pre] by auto
qed

text \<open>The two flags only decide between the answers that are not \<open>STOP\<close>.\<close>

lemma handle_samples_flags:
  "handle_samples t d gv gn xs =
     (case handle_samples t d False False xs of
        (a, r) \<Rightarrow>
          ((if a = STOP then STOP
            else if gn \<or> a = DEADLINE then DEADLINE
            else if gv \<or> a = ANY then ANY else NONE), r))"
proof (induction xs arbitrary: t d gv gn)
  case Nil
  then show ?case by simp
next
  case (Cons x xs)
  obtain k t' d' fx where h: "handle_sample t d x = (k, t', d', fx)"
    by (cases "handle_sample t d x")
  show ?case
  proof (cases k)
    case Matched
    show ?thesis
      using h Matched Cons.IH [of t' d' True True]
      by (auto split: prod.splits)
  next
    case StopSeen
    then show ?thesis using h by simp
  next
    case OtherValid
    show ?thesis
      using h OtherValid Cons.IH [of t' d' True gn] Cons.IH [of t' d' True False]
      by (auto split: prod.splits)
  next
    case Invalid
    show ?thesis
      using h Invalid Cons.IH [of t' d' gv gn]
      by (auto split: prod.splits)
  qed
qed

lemma handle_system_trigger_match:
  assumes "list_all (\<lambda>y. \<not> reacts_to d y) pre" and "valid x" and "next_start x = d"
  shows "handle_system_trigger t d (pre @ x # post) =
          (case handle_system_trigger (t\<lparr>current_time := d\<rparr>) (d + period_nanoseconds t) post of
             (a, t', d', fx') \<Rightarrow>
               ((if a = STOP then STOP else DEADLINE), t', d',
                (if m_update_callback t then [Callback d] else [])
                  @ [WriteReadyStatus (node_id t) (d + period_nanoseconds t)] @ fx'))"
proof -
  have "handle_system_trigger t d (pre @ x # post)
          = handle_samples t d (list_ex valid pre) False (x # post)"
    using assms(1) by (simp add: handle_system_trigger_def handle_samples_skip)
  also have "\<dots> =
      (case handle_samples (t\<lparr>current_time := d\<rparr>) (d + period_nanoseconds t) True True post of
         (a, t', d', fx') \<Rightarrow>
           (a, t', d',
            ((if m_update_callback t then [Callback d] else [])
              @ [WriteReadyStatus (node_id t) (d + period_nanoseconds t)]) @ fx'))"
    using assms(2,3) by (simp add: handle_sample_match)
  finally show ?thesis
    using handle_samples_flags
      [of "t\<lparr>current_time := d\<rparr>" "d + period_nanoseconds t" True True post]
    by (simp add: handle_system_trigger_def split: prod.splits)
qed

lemma handle_system_trigger_stop:
  assumes "list_all (\<lambda>y. \<not> reacts_to d y) pre" and "valid x" and "next_start x \<noteq> d"
    and "next_start x = TRIGGER_STOP_SYMBOL"
  shows "handle_system_trigger t d (pre @ x # post) =
          (STOP, (if m_stop_callback t then t else t\<lparr>active := False\<rparr>), d,
           (if m_stop_callback t then [StopCallback] else []))"
proof -
  have "handle_system_trigger t d (pre @ x # post)
          = handle_samples t d (list_ex valid pre) False (x # post)"
    using assms(1) by (simp add: handle_system_trigger_def handle_samples_skip)
  then show ?thesis using assms(2-4) by (simp add: handle_sample_stop)
qed

lemma wait_loop_match:
  assumes "active t"
  shows "wait_loop t d (Arrived \<lparr>taken = [Sample True d], stop_called = False\<rparr> # es) =
          (case wait_loop (t\<lparr>current_time := d\<rparr>) (d + period_nanoseconds t) es of
             (st, t'', fx') \<Rightarrow>
               (st, t'',
                (if m_update_callback t then [Callback d] else [])
                  @ [WriteReadyStatus (node_id t) (d + period_nanoseconds t)] @ fx'))"
  using assms
  by (simp add: handle_system_trigger_def handle_sample_match split: prod.splits)

text \<open>
  C3, as claimed: a sample whose \<open>next_start\<close> equals the stop signal terminates the
  timer. The deadline is compared first. A simulated timer with the offset \<open>2 ^ 64 - 1\<close>
  expects its first tick at the stop symbol: the sample that carries it calls the update
  callback, the deadline advances (to 9, with the period 10), and the timer is still
  active and waits for the next trigger.
\<close>

theorem C3_stop_symbol_as_deadline_counterexample:
  "sim_start (TimerSimulated_new ''sim'' 10 TRIGGER_STOP_SYMBOL) True
     [Arrived \<lparr>taken = [Sample True TRIGGER_STOP_SYMBOL], stop_called = False\<rparr>]
   = (Blocked,
      (TimerSimulated_new ''sim'' 10 TRIGGER_STOP_SYMBOL)
        \<lparr>active := True, m_update_callback := True, current_time := TRIGGER_STOP_SYMBOL\<rparr>,
      [WriteReadyStatus ''sim'' TRIGGER_STOP_SYMBOL, Callback TRIGGER_STOP_SYMBOL,
       WriteReadyStatus ''sim'' 9])
   \<and> active ((TimerSimulated_new ''sim'' 10 TRIGGER_STOP_SYMBOL)
        \<lparr>active := True, m_update_callback := True, current_time := TRIGGER_STOP_SYMBOL\<rparr>)"
  by (simp add: sim_start_def TimerSimulated_new_def handle_system_trigger_def handle_sample_def
        TRIGGER_STOP_SYMBOL_def)

text \<open>
  C3, as the code has it. One sample at the deadline \<open>d\<close>: the update callback (if one
  is registered) is called exactly when the sample is valid and carries \<open>d\<close>, and it is
  called with \<open>d\<close>; such a sample sets the deadline to \<open>d + P\<close> and publishes a ready
  status with the new deadline. A valid sample that carries the stop symbol and not
  \<open>d\<close> calls the stop callback or, when none is registered, clears \<open>active\<close>. Any
  other sample changes neither the timer nor the deadline and has no effect.

  \<open>handle_system_trigger\<close> on a whole batch: if no sample of it is one the loop reacts
  to, timer and deadline come back unchanged. If the first sample it reacts to carries
  the deadline, the callback is called with \<open>d\<close>, the ready status for \<open>d + P\<close> is
  written, and the rest of the batch is processed with the deadline \<open>d + P\<close>, whose
  result is handed back to the caller. If the first sample it reacts to carries the stop
  symbol (and not \<open>d\<close>), the timer is stopped and the rest of the batch is not looked
  at. Some callback is called exactly when the first sample the loop reacts to carries
  the deadline. The main loop of \<open>start\<close> goes on with the deadline handed back.
\<close>

theorem C3_trigger_processing:
  "(Callback c \<in> set (snd (snd (snd (handle_sample t d x)))) \<longleftrightarrow>
      m_update_callback t \<and> valid x \<and> next_start x = d \<and> c = d)
   \<and> (valid x \<and> next_start x = d \<longrightarrow>
        handle_sample t d x =
          (Matched, t\<lparr>current_time := d\<rparr>, d + period_nanoseconds t,
           (if m_update_callback t then [Callback d] else [])
             @ [WriteReadyStatus (node_id t) (d + period_nanoseconds t)]))
   \<and> (valid x \<and> next_start x \<noteq> d \<and> next_start x = TRIGGER_STOP_SYMBOL \<longrightarrow>
        handle_sample t d x =
          (if m_stop_callback t then (StopSeen, t, d, [StopCallback])
           else (StopSeen, t\<lparr>active := False\<rparr>, d, [])))
   \<and> (\<not> valid x \<or> (next_start x \<noteq> d \<and> next_start x \<noteq> TRIGGER_STOP_SYMBOL) \<longrightarrow>
        snd (handle_sample t d x) = (t, d, []))
   \<and> (list_all (\<lambda>x. \<not> valid x \<or> (next_start x \<noteq> d \<and> next_start x \<noteq> TRIGGER_STOP_SYMBOL)) batch \<longrightarrow>
        handle_system_trigger t d batch =
          ((if list_ex valid batch then ANY else NONE), t, d, []))
   \<and> (list_all (\<lambda>y. \<not> reacts_to d y) pre \<and> valid x \<and> next_start x = d \<longrightarrow>
        handle_system_trigger t d (pre @ x # post) =
          (case handle_system_trigger (t\<lparr>current_time := d\<rparr>) (d + period_nanoseconds t) post of
             (a, t', d', fx') \<Rightarrow>
               ((if a = STOP then STOP else DEADLINE), t', d',
                (if m_update_callback t then [Callback d] else [])
                  @ [WriteReadyStatus (node_id t) (d + period_nanoseconds t)] @ fx')))
   \<and> (list_all (\<lambda>y. \<not> reacts_to d y) pre \<and> valid x \<and> next_start x \<noteq> d
        \<and> next_start x = TRIGGER_STOP_SYMBOL \<longrightarrow>
        handle_system_trigger t d (pre @ x # post) =
          (STOP, (if m_stop_callback t then t else t\<lparr>active := False\<rparr>), d,
           (if m_stop_callback t then [StopCallback] else [])))
   \<and> ((\<exists>c'. Callback c' \<in> set (snd (snd (snd (handle_system_trigger t d batch))))) \<longleftrightarrow>
        m_update_callback t \<and> (\<exists>y. find (reacts_to d) batch = Some y \<and> next_start y = d))
   \<and> (active t \<longrightarrow>
        wait_loop t d (Arrived \<lparr>taken = [Sample True d], stop_called = False\<rparr> # es) =
          (case wait_loop (t\<lparr>current_time := d\<rparr>) (d + period_nanoseconds t) es of
             (st, t'', fx') \<Rightarrow>
               (st, t'',
                (if m_update_callback t then [Callback d] else [])
                  @ [WriteReadyStatus (node_id t) (d + period_nanoseconds t)] @ fx')))"
proof (intro conjI impI)
  show "(Callback c \<in> set (snd (snd (snd (handle_sample t d x))))) =
      (m_update_callback t \<and> valid x \<and> next_start x = d \<and> c = d)"
    by (rule handle_sample_callback_iff)
next
  assume "valid x \<and> next_start x = d"
  then show "handle_sample t d x =
          (Matched, t\<lparr>current_time := d\<rparr>, d + period_nanoseconds t,
           (if m_update_callback t then [Callback d] else [])
             @ [WriteReadyStatus (node_id t) (d + period_nanoseconds t)])"
    by (simp add: handle_sample_match)
next
  assume "valid x \<and> next_start x \<noteq> d \<and> next_start x = TRIGGER_STOP_SYMBOL"
  then show "handle_sample t d x =
          (if m_stop_callback t then (StopSeen, t, d, [StopCallback])
           else (StopSeen, t\<lparr>active := False\<rparr>, d, []))"
    using handle_sample_stop [of x d t] by blast
next
  assume "\<not> valid x \<or> (next_start x \<noteq> d \<and> next_start x \<noteq> TRIGGER_STOP_SYMBOL)"
  then show "snd (handle_sample t d x) = (t, d, [])"
    by (simp add: handle_sample_other)
next
  assume "list_all (\<lambda>x. \<not> valid x \<or> (next_start x \<noteq> d \<and> next_start x \<noteq> TRIGGER_STOP_SYMBOL)) batch"
  then show "handle_system_trigger t d batch =
          ((if list_ex valid batch then ANY else NONE), t, d, [])"
    by (simp add: handle_system_trigger_def handle_samples_others)
next
  assume "list_all (\<lambda>y. \<not> reacts_to d y) pre \<and> valid x \<and> next_start x = d"
  then show "handle_system_trigger t d (pre @ x # post) =
          (case handle_system_trigger (t\<lparr>current_time := d\<rparr>) (d + period_nanoseconds t) post of
             (a, t', d', fx') \<Rightarrow>
               ((if a = STOP then STOP else DEADLINE), t', d',
                (if m_update_callback t then [Callback d] else [])
                  @ [WriteReadyStatus (node_id t) (d + period_nanoseconds t)] @ fx'))"
    using handle_system_trigger_match [of d pre x t post] by blast
next
  assume "list_all (\<lambda>y. \<not> reacts_to d y) pre \<and> valid x \<and> next_start x \<noteq> d
        \<and> next_start x = TRIGGER_STOP_SYMBOL"
  then show "handle_system_trigger t d (pre @ x # post) =
          (STOP, (if m_stop_callback t then t else t\<lparr>active := False\<rparr>), d,
           (if m_stop_callback t then [StopCallback] else []))"
    using handle_system_trigger_stop [of d pre x t post] by blast
next
  show "(\<exists>c'. Callback c' \<in> set (snd (snd (snd (handle_system_trigger t d batch))))) =
        (m_update_callback t \<and> (\<exists>y. find (reacts_to d) batch = Some y \<and> next_start y = d))"
    unfolding handle_system_trigger_def by (rule handle_samples_callback_iff)
next
  assume "active t"
  then show "wait_loop t d (Arrived \<lparr>taken = [Sample True d], stop_called = False\<rparr> # es) =
          (case wait_loop (t\<lparr>current_time := d\<rparr>) (d + period_nanoseconds t) es of
             (st, t'', fx') \<Rightarrow>
               (st, t'',
                (if m_update_callback t then [Callback d] else [])
                  @ [WriteReadyStatus (node_id t) (d + period_nanoseconds t)] @ fx'))"
    by (rule wait_loop_match)
qed

theorem C3_trigger_processing_witness:
  "(valid (Sample True 20) \<and> next_start (Sample True 20) = 20)
   \<and> handle_sample ((TimerSimulated_new ''sim'' 10 0)\<lparr>active := True, m_update_callback := True\<rparr>) 20 (Sample True 20) =
       (Matched, ((TimerSimulated_new ''sim'' 10 0)\<lparr>active := True, m_update_callback := True\<rparr>)\<lparr>current_time := 20\<rparr>, 30, [Callback 20, WriteReadyStatus ''sim'' 30])
   \<and> (valid (Sample True TRIGGER_STOP_SYMBOL) \<and> next_start (Sample True TRIGGER_STOP_SYMBOL) \<noteq> 20
        \<and> next_start (Sample True TRIGGER_STOP_SYMBOL) = TRIGGER_STOP_SYMBOL)
   \<and> active ((TimerSimulated_new ''sim'' 10 0)\<lparr>active := True, m_update_callback := True\<rparr>)
   \<and> handle_sample ((TimerSimulated_new ''sim'' 10 0)\<lparr>active := True, m_update_callback := True\<rparr>) 20 (Sample True TRIGGER_STOP_SYMBOL) =
       (StopSeen, ((TimerSimulated_new ''sim'' 10 0)\<lparr>active := True, m_update_callback := True\<rparr>)\<lparr>active := False\<rparr>, 20, [])
   \<and> (next_start (Sample True 10) \<noteq> 20 \<and> next_start (Sample True 10) \<noteq> TRIGGER_STOP_SYMBOL)
   \<and> snd (handle_sample ((TimerSimulated_new ''sim'' 10 0)\<lparr>active := True, m_update_callback := True\<rparr>) 20 (Sample True 10)) = (((TimerSimulated_new ''sim'' 10 0)\<lparr>active := True, m_update_callback := True\<rparr>), 20, [])
   \<and> list_all (\<lambda>x. \<not> valid x \<or> (next_start x \<noteq> 20 \<and> next_start x \<noteq> TRIGGER_STOP_SYMBOL))
        [Sample True 10, Sample False 20, Sample True 30]
   \<and> handle_system_trigger ((TimerSimulated_new ''sim'' 10 0)\<lparr>active := True, m_update_callback := True\<rparr>) 20 [Sample True 10, Sample False 20, Sample True 30] =
       (ANY, ((TimerSimulated_new ''sim'' 10 0)\<lparr>active := True, m_update_callback := True\<rparr>), 20, [])
   \<and> list_all (\<lambda>y. \<not> reacts_to 20 y) [Sample True 10]
   \<and> handle_system_trigger ((TimerSimulated_new ''sim'' 10 0)\<lparr>active := True, m_update_callback := True\<rparr>) 20 [Sample True 10, Sample True 20, Sample True 30, Sample True 7] =
       (DEADLINE, ((TimerSimulated_new ''sim'' 10 0)\<lparr>active := True, m_update_callback := True\<rparr>)\<lparr>current_time := 30\<rparr>, 40,
        [Callback 20, WriteReadyStatus ''sim'' 30, Callback 30, WriteReadyStatus ''sim'' 40])
   \<and> handle_system_trigger ((TimerSimulated_new ''sim'' 10 0)\<lparr>active := True, m_update_callback := True\<rparr>) 20 [Sample True 10, Sample True TRIGGER_STOP_SYMBOL, Sample True 20] =
       (STOP, ((TimerSimulated_new ''sim'' 10 0)\<lparr>active := True, m_update_callback := True\<rparr>)\<lparr>active := False\<rparr>, 20, [])
   \<and> wait_loop ((TimerSimulated_new ''sim'' 10 0)\<lparr>active := True, m_update_callback := True\<rparr>) 20 [Arrived \<lparr>taken = [Sample True 20], stop_called = False\<rparr>] =
       (Blocked, ((TimerSimulated_new ''sim'' 10 0)\<lparr>active := True, m_update_callback := True\<rparr>)\<lparr>current_time := 20\<rparr>, [Callback 20, WriteReadyStatus ''sim'' 30])"
  using C3_trigger_processing [where t = "((TimerSimulated_new ''sim'' 10 0)\<lparr>active := True, m_update_callback := True\<rparr>)"
          and d = 20 and x = "Sample True 20" and c = 20
          and batch = "[Sample True 10, Sample False 20, Sample True 30]"
          and pre = "[Sample True 10]" and post = "[Sample True 30, Sample True 7]" and es = "[]"]
        C3_trigger_processing [where t = "((TimerSimulated_new ''sim'' 10 0)\<lparr>active := True, m_update_callback := True\<rparr>)"
          and d = 20 and x = "Sample True TRIGGER_STOP_SYMBOL" and c = 20 and batch = "[]"
          and pre = "[Sample True 10]" and post = "[Sample True 20]" and es = "[]"]
        C3_trigger_processing [where t = "((TimerSimulated_new ''sim'' 10 0)\<lparr>active := True, m_update_callback := True\<rparr>)"
          and d = 20 and x = "Sample True 10" and c = 20 and batch = "[]"
          and pre = "[]" and post = "[]" and es = "[]"]
  by (simp add: TimerSimulated_new_def TRIGGER_STOP_SYMBOL_def reacts_to_def
        handle_system_trigger_def handle_sample_def)

section \<open>Starting twice, and starting again after \<open>stop\<close>\<close>

text \<open>
  C4, as claimed: after \<open>stop()\<close> the instance is terminal, no later \<open>start()\<close> calls
  the update callback. A real-time timer whose callback calls \<open>stop()\<close> on the first
  tick returns from \<open>start\<close>; after one more \<open>stop()\<close>, a second \<open>start\<close> on the
  same instance calls the callback again. The same holds for a simulated timer stopped
  by the stop symbol.
\<close>

theorem C4_terminal_counterexample:
  "fst (start (TimerFD_new ''rt'' 100 0 False TRIGGER_STOP_SYMBOL) True 100 []
          [\<lparr>taken = [], stop_called = True, t_wake = 100, t_after = 110\<rparr>]) = Returned
   \<and> snd (snd (start
        (stop (fst (snd (start (TimerFD_new ''rt'' 100 0 False TRIGGER_STOP_SYMBOL) True 100 []
                              [\<lparr>taken = [], stop_called = True, t_wake = 100, t_after = 110\<rparr>]))))
        True 200 [] [\<lparr>taken = [], stop_called = True, t_wake = 200, t_after = 210\<rparr>]))
      = [Callback 200]
   \<and> fst (sim_start (TimerSimulated_new ''sim'' 10 0) True
          [Arrived \<lparr>taken = [Sample True TRIGGER_STOP_SYMBOL], stop_called = False\<rparr>]) = Returned
   \<and> snd (snd (sim_start
        (stop (fst (snd (sim_start (TimerSimulated_new ''sim'' 10 0) True
                [Arrived \<lparr>taken = [Sample True TRIGGER_STOP_SYMBOL], stop_called = False\<rparr>]))))
        True [Arrived \<lparr>taken = [Sample True 0, Sample True TRIGGER_STOP_SYMBOL], stop_called = False\<rparr>]))
      = [WriteReadyStatus ''sim'' 0, Callback 0, WriteReadyStatus ''sim'' 10]"
  by (simp add: start_def sim_start_def TimerFD_new_def TimerSimulated_new_def
        run_from_start_point_def first_deadline_def loop_body_def missed_periods_def stop_def stop_join_def
        handle_system_trigger_def handle_sample_def TRIGGER_STOP_SYMBOL_def)

lemma stop_join_no_worker: "\<not> joinable t \<Longrightarrow> stop_join worker t = stop t"
  by (simp add: stop_def stop_join_def Let_def)

lemma start_after_stop_runs:
  assumes "\<not> joinable t" and "\<not> wait_for_start t"
    and "first_deadline (period_nanoseconds t) (offset_nanoseconds t) now \<le> t_wake e"
  shows "Callback (first_deadline (period_nanoseconds t) (offset_nanoseconds t) now)
           \<in> set (snd (snd (start (stop_join worker t) True now negs (e # es))))"
  using assms
  by (simp add: stop_join_no_worker start_def run_from_start_point_def loop_body_def Let_def
        stop_keeps_Timer_fields split: prod.splits)

lemma sim_start_after_stop_runs:
  "\<not> joinable t \<Longrightarrow>
   Callback (offset_nanoseconds t)
     \<in> set (snd (snd (sim_start (stop_join worker t) True
         (Arrived \<lparr>taken = Sample True (offset_nanoseconds t) # xs, stop_called = sc\<rparr> # es))))"
  by (simp add: stop_join_no_worker sim_start_def stop_keeps_Timer_fields handle_system_trigger_def
        handle_sample_def Let_def split: prod.splits)

text \<open>
  The overload that also takes a stop callback stores it before the guard is reached:
  on an active timer it throws as well, but the stop callback has been replaced.
\<close>

lemma start_with_stop_active:
  "active t \<Longrightarrow>
   start_with_stop t cb scb now negs ticks =
     (Threw ErrorTimerStart, t\<lparr>m_stop_callback := scb\<rparr>,
      [LogWrite 2 ''TimerFD: The cpm::Timer can not be started twice.''])"
  by (simp add: start_with_stop_def start_def)

text \<open>
  With a worker thread the outcome of \<open>stop()\<close> depends on the worker. A worker that
  enters \<open>start\<close> only while \<open>stop()\<close> waits for it finds the timer inactive and
  cancelled: it stores \<open>active = true\<close> and returns. After such a \<open>stop()\<close> the timer
  is active, and the next \<open>start\<close> throws.
\<close>

lemma stop_join_worker_enters_start:
  assumes "joinable t"
  shows "active (stop_join (\<lambda>u. fst (snd (start u cb now negs ticks))) t)"
    and "fst (start (stop_join (\<lambda>u. fst (snd (start u cb now negs ticks))) t) cb' now' negs' ticks')
           = Threw ErrorTimerStart"
  using assms by (simp_all add: stop_join_def start_def Let_def)

text \<open>
  C4, as the code has it. \<open>start\<close> on an active timer, and \<open>start_async\<close> on a timer
  whose worker is joinable, throw \<open>ErrorTimerStart\<close> and leave the timer as it was, for
  both timer classes. On a timer without a worker thread \<open>stop()\<close> (whatever a worker
  would have done) leaves the timer inactive and not cancelled, so it does not make the
  instance terminal: a \<open>start\<close> after it runs the loop and calls the callback once the
  clock (or, for the simulated timer, a trigger) reaches the first deadline.
\<close>

theorem C4_start_guard_and_restart:
  "(active t \<longrightarrow>
      start t cb now negs ticks =
        (Threw ErrorTimerStart, t, [LogWrite 2 ''TimerFD: The cpm::Timer can not be started twice.'']))
   \<and> (joinable t \<longrightarrow>
      start_async t cb =
        (Threw ErrorTimerStart, t, [LogWrite 2 ''TimerFD: The cpm::Timer can not be started twice.'']))
   \<and> (active ts \<longrightarrow>
      sim_start ts cb evs =
        (Threw ErrorTimerStart, ts,
         [LogWrite 2 ''TimerSimulated: The cpm::Timer can not be started twice.'']))
   \<and> (joinable ts \<longrightarrow>
      sim_start_async ts cb =
        (Threw ErrorTimerStart, ts,
         [LogWrite 2 ''TimerSimulated: The cpm::Timer can not be started twice.'']))
   \<and> (\<not> joinable t \<longrightarrow>
      \<not> active (stop_join worker t) \<and> \<not> cancelled (stop_join worker t)
      \<and> \<not> joinable (stop_join worker t))
   \<and> (\<not> joinable ts \<longrightarrow>
      \<not> active (stop_join sim_worker ts) \<and> \<not> cancelled (stop_join sim_worker ts)
      \<and> \<not> joinable (stop_join sim_worker ts))
   \<and> (\<not> joinable t \<and> \<not> wait_for_start t
        \<and> first_deadline (period_nanoseconds t) (offset_nanoseconds t) now \<le> t_wake e \<longrightarrow>
      Callback (first_deadline (period_nanoseconds t) (offset_nanoseconds t) now)
        \<in> set (snd (snd (start (stop_join worker t) True now negs (e # es)))))
   \<and> (\<not> joinable ts \<longrightarrow>
      Callback (offset_nanoseconds ts)
        \<in> set (snd (snd (sim_start (stop_join sim_worker ts) True
            (Arrived \<lparr>taken = Sample True (offset_nanoseconds ts) # xs, stop_called = sc\<rparr> # evs)))))"
proof (intro conjI impI)
  assume "\<not> joinable t \<and> \<not> wait_for_start t
        \<and> first_deadline (period_nanoseconds t) (offset_nanoseconds t) now \<le> t_wake e"
  then show "Callback (first_deadline (period_nanoseconds t) (offset_nanoseconds t) now)
        \<in> set (snd (snd (start (stop_join worker t) True now negs (e # es))))"
    using start_after_stop_runs by blast
next
  assume "\<not> joinable ts"
  then show "Callback (offset_nanoseconds ts)
        \<in> set (snd (snd (sim_start (stop_join sim_worker ts) True
            (Arrived \<lparr>taken = Sample True (offset_nanoseconds ts) # xs, stop_called = sc\<rparr> # evs))))"
    by (rule sim_start_after_stop_runs)
qed (simp_all add: start_def start_async_def sim_start_def sim_start_async_def
       stop_join_no_worker stop_keeps_Timer_fields)

theorem C4_start_guard_and_restart_witness:
  "active ((TimerFD_new ''rt'' 100 0 False TRIGGER_STOP_SYMBOL)\<lparr>active := True, joinable := True\<rparr>)
   \<and> start ((TimerFD_new ''rt'' 100 0 False TRIGGER_STOP_SYMBOL)\<lparr>active := True, joinable := True\<rparr>)
        True 100 [] [\<lparr>taken = [], stop_called = False, t_wake = 100, t_after = 110\<rparr>] =
       (Threw ErrorTimerStart,
        (TimerFD_new ''rt'' 100 0 False TRIGGER_STOP_SYMBOL)\<lparr>active := True, joinable := True\<rparr>,
        [LogWrite 2 ''TimerFD: The cpm::Timer can not be started twice.''])
   \<and> joinable ((TimerFD_new ''rt'' 100 0 False TRIGGER_STOP_SYMBOL)\<lparr>active := True, joinable := True\<rparr>)
   \<and> start_async ((TimerFD_new ''rt'' 100 0 False TRIGGER_STOP_SYMBOL)\<lparr>active := True, joinable := True\<rparr>) True =
       (Threw ErrorTimerStart,
        (TimerFD_new ''rt'' 100 0 False TRIGGER_STOP_SYMBOL)\<lparr>active := True, joinable := True\<rparr>,
        [LogWrite 2 ''TimerFD: The cpm::Timer can not be started twice.''])
   \<and> active ((TimerSimulated_new ''sim'' 10 0)\<lparr>active := True, joinable := True\<rparr>)
   \<and> sim_start ((TimerSimulated_new ''sim'' 10 0)\<lparr>active := True, joinable := True\<rparr>) True [] =
       (Threw ErrorTimerStart, (TimerSimulated_new ''sim'' 10 0)\<lparr>active := True, joinable := True\<rparr>,
        [LogWrite 2 ''TimerSimulated: The cpm::Timer can not be started twice.''])
   \<and> joinable ((TimerSimulated_new ''sim'' 10 0)\<lparr>active := True, joinable := True\<rparr>)
   \<and> sim_start_async ((TimerSimulated_new ''sim'' 10 0)\<lparr>active := True, joinable := True\<rparr>) True =
       (Threw ErrorTimerStart, (TimerSimulated_new ''sim'' 10 0)\<lparr>active := True, joinable := True\<rparr>,
        [LogWrite 2 ''TimerSimulated: The cpm::Timer can not be started twice.''])
   \<and> (\<not> joinable ((TimerFD_new ''rt'' 100 0 False TRIGGER_STOP_SYMBOL)\<lparr>active := True\<rparr>)
      \<and> \<not> wait_for_start ((TimerFD_new ''rt'' 100 0 False TRIGGER_STOP_SYMBOL)\<lparr>active := True\<rparr>)
      \<and> first_deadline 100 0 100 \<le> (100 :: u64))
   \<and> \<not> active (stop_join (\<lambda>u. u\<lparr>active := True\<rparr>)
                  ((TimerFD_new ''rt'' 100 0 False TRIGGER_STOP_SYMBOL)\<lparr>active := True\<rparr>))
   \<and> Callback (first_deadline 100 0 100)
        \<in> set (snd (snd (start
             (stop_join (\<lambda>u. u\<lparr>active := True\<rparr>)
                ((TimerFD_new ''rt'' 100 0 False TRIGGER_STOP_SYMBOL)\<lparr>active := True\<rparr>))
             True 100 [] [\<lparr>taken = [], stop_called = False, t_wake = 100, t_after = 110\<rparr>])))
   \<and> \<not> joinable ((TimerSimulated_new ''sim'' 10 0)\<lparr>active := True\<rparr>)
   \<and> \<not> active (stop_join (\<lambda>u. u\<lparr>active := True\<rparr>) ((TimerSimulated_new ''sim'' 10 0)\<lparr>active := True\<rparr>))
   \<and> Callback 0
        \<in> set (snd (snd (sim_start
             (stop_join (\<lambda>u. u\<lparr>active := True\<rparr>) ((TimerSimulated_new ''sim'' 10 0)\<lparr>active := True\<rparr>))
             True [Arrived \<lparr>taken = [Sample True 0], stop_called = False\<rparr>])))"
  using C4_start_guard_and_restart
    [where t = "(TimerFD_new ''rt'' 100 0 False TRIGGER_STOP_SYMBOL)\<lparr>active := True, joinable := True\<rparr>"
       and ts = "(TimerSimulated_new ''sim'' 10 0)\<lparr>active := True, joinable := True\<rparr>"
       and cb = True and now = 100 and negs = "[]"
       and ticks = "[\<lparr>taken = [], stop_called = False, t_wake = 100, t_after = 110\<rparr>]"
       and evs = "[]"]
    C4_start_guard_and_restart
    [where t = "(TimerFD_new ''rt'' 100 0 False TRIGGER_STOP_SYMBOL)\<lparr>active := True\<rparr>"
       and ts = "(TimerSimulated_new ''sim'' 10 0)\<lparr>active := True\<rparr>"
       and worker = "\<lambda>u. u\<lparr>active := True\<rparr>" and sim_worker = "\<lambda>u. u\<lparr>active := True\<rparr>"
       and now = 100 and negs = "[]"
       and e = "\<lparr>taken = [], stop_called = False, t_wake = 100, t_after = 110\<rparr>" and es = "[]"
       and evs = "[]" and xs = "[]" and sc = False]
  by (simp add: TimerFD_new_def TimerSimulated_new_def first_deadline_def)

section \<open>The keep-alive of the simulated timer\<close>








section \<open>The entries of the round-trip-time aggregator\<close>

lemma entry_eq_iff:
  "entry s k = entry s' k \<longleftrightarrow>
     current_best_rtt s k = current_best_rtt s' k \<and>
     current_worst_rtt s k = current_worst_rtt s' k \<and>
     all_time_worst_rtt s k = all_time_worst_rtt s' k \<and>
     measure_count s k = measure_count s' k \<and>
     missed_answers s k = missed_answers s' k \<and>
     last_msg_timestamp s k = last_msg_timestamp s' k \<and>
     (k \<in> set (received_ids s) \<longleftrightarrow> k \<in> set (received_ids s'))"
  by (simp add: entry_def)

lemma touch_other: "k' \<noteq> k \<Longrightarrow> touch m k' k = m k"
  by (simp add: touch_def split: option.splits)

lemma touch_same: "touch m k k = Some (subscript m k)"
  by (simp add: touch_def subscript_def split: option.splits)

lemma store_answer_other:
  "fst e \<noteq> k \<Longrightarrow> entry (fst (store_answer clock e (s, ms))) k = entry s k"
  by (cases e) (simp add: store_answer_def entry_def Let_def)

lemma store_answer_missing:
  "snd (store_answer clock e (s, ms)) = removeAll (fst e) ms"
  by (cases e) (simp add: store_answer_def Let_def)

lemma store_missing_other:
  "k' \<noteq> k \<Longrightarrow> entry (store_missing clock k' s) k = entry s k"
  by (simp add: store_missing_def delete_entry_def entry_def Let_def touch_other)

lemma fold_store_missing_other:
  "k \<notin> set ks \<Longrightarrow> entry (fold (store_missing clock) ks s) k = entry s k"
  by (induction ks arbitrary: s) (auto simp add: store_missing_other)

lemma fold_store_answer_other:
  "k \<notin> fst ` set rtt \<Longrightarrow>
   entry (fst (fold (store_answer clock) rtt (s, ms))) k = entry s k
   \<and> (k \<in> set (snd (fold (store_answer clock) rtt (s, ms))) \<longleftrightarrow> k \<in> set ms)"
proof (induction rtt arbitrary: s ms)
  case Nil
  then show ?case by simp
next
  case (Cons e rtt)
  obtain s1 ms1 where e: "store_answer clock e (s, ms) = (s1, ms1)" by (cases "store_answer clock e (s, ms)")
  from Cons.prems have ne: "fst e \<noteq> k" and rest: "k \<notin> fst ` set rtt" by auto
  have "entry s1 k = entry s k" using store_answer_other [OF ne, of clock s ms] e by simp
  moreover have "k \<in> set ms1 \<longleftrightarrow> k \<in> set ms"
    using store_answer_missing [of clock e s ms] e ne by auto
  ultimately show ?case using Cons.IH [OF rest, of s1 ms1] e by simp
qed

lemma fold_store_answer_distinct:
  "distinct ms \<Longrightarrow> distinct (snd (fold (store_answer clock) rtt (s, ms)))"
proof (induction rtt arbitrary: s ms)
  case Nil
  then show ?case by simp
next
  case (Cons e rtt)
  obtain s1 ms1 where e: "store_answer clock e (s, ms) = (s1, ms1)" by (cases "store_answer clock e (s, ms)")
  then have "distinct ms1" using store_answer_missing [of clock e s ms] Cons.prems
    by (simp add: distinct_removeAll)
  then show ?case using Cons.IH [of ms1 s1] e by simp
qed

lemma store_missing_entry_cong:
  "entry s1 k = entry s2 k \<Longrightarrow>
   entry (store_missing clock k s1) k = entry (store_missing clock k s2) k"
  by (simp add: entry_eq_iff store_missing_def delete_entry_def Let_def touch_same subscript_def)

lemma fold_store_missing_at:
  assumes "distinct ks" and "k \<in> set ks"
  shows "entry (fold (store_missing clock) ks s) k = entry (store_missing clock k s) k"
proof -
  from assms(2) obtain pre post where ks: "ks = pre @ k # post"
    by (auto dest: split_list)
  with assms(1) have pre: "k \<notin> set pre" and post: "k \<notin> set post" by simp_all
  have "entry (fold (store_missing clock) pre s) k = entry s k"
    using pre by (rule fold_store_missing_other)
  then have "entry (store_missing clock k (fold (store_missing clock) pre s)) k
               = entry (store_missing clock k s) k"
    by (rule store_missing_entry_cong)
  then show ?thesis
    using ks post by (simp add: fold_store_missing_other)
qed

text \<open>The state of one class after a round in which it did not answer.\<close>

lemma rtt_round_missing:
  assumes "distinct (received_ids s)" and "k \<in> set (received_ids s)" and "k \<notin> fst ` set rtt"
  shows "entry (rtt_round rtt clock s) k = entry (store_missing clock k s) k"
proof (cases "length rtt > 0")
  case False
  then show ?thesis using assms by (simp add: rtt_round_def fold_store_missing_at)
next
  case True
  let ?sm = "fold (store_answer clock) rtt (s, received_ids s)"
  have 1: "entry (fst ?sm) k = entry s k" and 2: "k \<in> set (snd ?sm)"
    using fold_store_answer_other [OF assms(3), of clock s "received_ids s"] assms(2) by simp_all
  have 3: "distinct (snd ?sm)" using assms(1) by (rule fold_store_answer_distinct)
  have "entry (rtt_round rtt clock s) k = entry (store_missing clock k (fst ?sm)) k"
    using True fold_store_missing_at [OF 3 2] by (simp add: rtt_round_def Let_def)
  also have "\<dots> = entry (store_missing clock k s) k"
    using 1 by (rule store_missing_entry_cong)
  finally show ?thesis .
qed

lemma entry_ok_cong: "entry s k = entry s' k \<Longrightarrow> entry_ok s k = entry_ok s' k"
  by (simp add: entry_ok_def)

lemma entry_ok_cases:
  "entry_ok s k \<longleftrightarrow>
     (\<exists>b w a mc ma ts. entry s k = (Some b, Some w, Some a, Some mc, Some ma, Some ts, True)
        \<and> b \<le> w \<and> w \<le> a \<and> 1 \<le> mc \<and> 0 \<le> ma \<and> ma \<le> mc)
     \<or> entry s k = (None, None, None, None, None, None, False)"
  by (auto simp add: entry_ok_def split: prod.splits option.splits bool.splits)

lemma store_answer_same_ok:
  assumes "entry_ok s k" and "b \<le> w"
  shows "entry_ok (fst (store_answer clock (k, b, w) (s, ms))) k"
proof -
  from assms(1) consider
    (known) b0 w0 a0 mc ma ts where
      "entry s k = (Some b0, Some w0, Some a0, Some mc, Some ma, Some ts, True)"
      "1 \<le> mc" "0 \<le> ma" "ma \<le> mc"
    | (new) "entry s k = (None, None, None, None, None, None, False)"
    unfolding entry_ok_cases by blast
  then show ?thesis
  proof cases
    case known
    then have "entry (fst (store_answer clock (k, b, w) (s, ms))) k
                 = (Some b, Some w, Some (max w a0), Some (mc + 1), Some ma, Some (clock k), True)"
      by (simp add: entry_def store_answer_def Let_def subscript_def)
    then show ?thesis using assms(2) known(2-4) by (simp add: entry_ok_def)
  next
    case new
    then have "entry (fst (store_answer clock (k, b, w) (s, ms))) k
                 = (Some b, Some w, Some w, Some 1, Some 0, Some (clock k), True)"
      by (simp add: entry_def store_answer_def Let_def)
    then show ?thesis using assms(2) by (simp add: entry_ok_def)
  qed
qed

lemma store_answer_received:
  "received_ids (fst (store_answer clock e (s, ms))) = List.insert (fst e) (received_ids s)"
  by (cases e) (simp add: store_answer_def Let_def)

lemma store_answer_inv:
  assumes "rtt_inv s" and "fst (snd e) \<le> snd (snd e)"
  shows "rtt_inv (fst (store_answer clock e (s, ms)))"
proof -
  obtain k b w where e: "e = (k, b, w)" by (cases e)
  have "entry_ok (fst (store_answer clock e (s, ms))) k'" for k'
  proof (cases "k' = k")
    case True
    then show ?thesis using assms e store_answer_same_ok [of s k b w clock ms]
      by (simp add: rtt_inv_def)
  next
    case False
    then have "entry (fst (store_answer clock e (s, ms))) k' = entry s k'"
      using e store_answer_other [of e k' clock s ms] by simp
    then have "entry_ok (fst (store_answer clock e (s, ms))) k' = entry_ok s k'"
      by (rule entry_ok_cong)
    then show ?thesis using assms(1) by (simp add: rtt_inv_def)
  qed
  moreover have "distinct (received_ids (fst (store_answer clock e (s, ms))))"
    using assms(1) by (simp add: store_answer_received rtt_inv_def)
  ultimately show ?thesis by (simp add: rtt_inv_def)
qed

lemma fold_store_answer_inv:
  "rtt_inv s \<Longrightarrow> list_all (\<lambda>(k, best, worst). best \<le> worst) rtt \<Longrightarrow>
   set ms \<subseteq> set (received_ids s) \<Longrightarrow>
   rtt_inv (fst (fold (store_answer clock) rtt (s, ms)))
   \<and> set (snd (fold (store_answer clock) rtt (s, ms)))
        \<subseteq> set (received_ids (fst (fold (store_answer clock) rtt (s, ms))))"
proof (induction rtt arbitrary: s ms)
  case Nil
  then show ?case by simp
next
  case (Cons e rtt)
  obtain s1 ms1 where e: "store_answer clock e (s, ms) = (s1, ms1)"
    by (cases "store_answer clock e (s, ms)")
  from Cons.prems(2) have le: "fst (snd e) \<le> snd (snd e)"
    and rest: "list_all (\<lambda>(k, best, worst). best \<le> worst) rtt"
    by (auto split: prod.splits)
  have 1: "rtt_inv s1" using store_answer_inv [OF Cons.prems(1) le, of clock ms] e by simp
  have 2: "set ms1 \<subseteq> set (received_ids s1)"
    using store_answer_received [of clock e s ms] store_answer_missing [of clock e s ms] e
      Cons.prems(3) by auto
  show ?case using Cons.IH [OF 1 rest 2] e by simp
qed

lemma store_missing_same_ok:
  assumes "entry_ok s k" and "k \<in> set (received_ids s)"
  shows "entry_ok (store_missing clock k s) k"
proof -
  from assms obtain b w a mc ma ts where
    e: "entry s k = (Some b, Some w, Some a, Some mc, Some ma, Some ts, True)"
    and r: "1 \<le> mc" "0 \<le> ma" "ma \<le> mc"
    unfolding entry_ok_cases by (auto simp add: entry_def)
  show ?thesis
  proof (cases "clock k - ts > delete_entry_timeout_ns")
    case True
    with e have "entry (store_missing clock k s) k = (None, None, None, None, None, None, False)"
      by (simp add: entry_def store_missing_def delete_entry_def Let_def subscript_def)
    then show ?thesis by (simp add: entry_ok_def)
  next
    case False
    with e have "entry (store_missing clock k s) k
                   = (Some 0, Some 0, Some a, Some (mc + 1), Some (ma + 1), Some ts, True)"
      by (simp add: entry_def store_missing_def Let_def subscript_def touch_def)
    then show ?thesis using r by (simp add: entry_ok_def)
  qed
qed

lemma store_missing_received:
  "set (received_ids (store_missing clock k s)) \<supseteq> set (received_ids s) - {k}"
  "distinct (received_ids s) \<Longrightarrow> distinct (received_ids (store_missing clock k s))"
  by (auto simp add: store_missing_def delete_entry_def Let_def distinct_removeAll)

lemma store_missing_inv:
  assumes "rtt_inv s" and "k \<in> set (received_ids s)"
  shows "rtt_inv (store_missing clock k s)"
proof -
  have "entry_ok (store_missing clock k s) k'" for k'
  proof (cases "k' = k")
    case True
    then show ?thesis using assms store_missing_same_ok by (simp add: rtt_inv_def)
  next
    case False
    then have "entry (store_missing clock k s) k' = entry s k'"
      by (simp add: store_missing_other)
    then have "entry_ok (store_missing clock k s) k' = entry_ok s k'"
      by (rule entry_ok_cong)
    then show ?thesis using assms(1) by (simp add: rtt_inv_def)
  qed
  then show ?thesis using assms(1) store_missing_received(2) by (simp add: rtt_inv_def)
qed

lemma fold_store_missing_inv:
  "rtt_inv s \<Longrightarrow> distinct ks \<Longrightarrow> set ks \<subseteq> set (received_ids s) \<Longrightarrow>
   rtt_inv (fold (store_missing clock) ks s)"
proof (induction ks arbitrary: s)
  case Nil
  then show ?case by simp
next
  case (Cons k ks)
  have 1: "rtt_inv (store_missing clock k s)"
    using Cons.prems by (simp add: store_missing_inv)
  have 2: "set ks \<subseteq> set (received_ids (store_missing clock k s))"
    using Cons.prems(2,3) store_missing_received(1) [of s k clock] by auto
  show ?case using Cons.IH [OF 1 _ 2] Cons.prems(2) by simp
qed

lemma rtt_round_inv:
  assumes "rtt_inv s" and "measured_ok rtt"
  shows "rtt_inv (rtt_round rtt clock s)"
proof -
  let ?sm = "fold (store_answer clock) rtt (s, received_ids s)"
  have a: "rtt_inv (fst ?sm) \<and> set (snd ?sm) \<subseteq> set (received_ids (fst ?sm))"
    using assms by (intro fold_store_answer_inv) (simp_all add: measured_ok_def)
  have d: "distinct (snd ?sm)"
    using assms(1) by (intro fold_store_answer_distinct) (simp add: rtt_inv_def)
  have "rtt_inv (fold (store_missing clock) (snd ?sm) (fst ?sm))"
    using a d by (simp add: fold_store_missing_inv)
  moreover have "rtt_inv (fold (store_missing clock) (received_ids s) s)"
    using assms(1) by (intro fold_store_missing_inv) (simp_all add: rtt_inv_def)
  ultimately show ?thesis by (simp add: rtt_round_def Let_def)
qed

lemma get_rtt_state_inv: "rtt_inv s \<Longrightarrow> fst (snd (snd (get_rtt s k out))) = s"
proof -
  assume "rtt_inv s"
  then have ok: "entry_ok s k" by (simp add: rtt_inv_def)
  show ?thesis
  proof (cases "current_best_rtt s k")
    case None
    then show ?thesis by (simp add: get_rtt_def)
  next
    case (Some b)
    with ok obtain w a mc ma where
      "current_worst_rtt s k = Some w" "all_time_worst_rtt s k = Some a"
      "measure_count s k = Some mc" "missed_answers s k = Some ma"
      unfolding entry_ok_cases by (auto simp add: entry_def)
    with Some show ?thesis
      by (simp add: get_rtt_def Let_def touch_def)
  qed
qed

lemma reachable_inv: "reachable s \<Longrightarrow> rtt_inv s"
proof (induction rule: reachable.induct)
  case reachable_init
  then show ?case by (simp add: rtt_inv_def entry_ok_def entry_def rtt_empty_def)
next
  case (reachable_round s rtt clock)
  then show ?case by (simp add: rtt_round_inv)
next
  case (reachable_restart s)
  then show ?case by (simp add: rtt_inv_def entry_ok_def entry_def restart_measurement_def)
next
  case (reachable_query s pid out)
  then show ?case by (simp add: get_rtt_state_inv)
qed


lemma store_answer_fresh:
  "entry s k = (None, None, None, None, None, None, False) \<Longrightarrow>
   entry (fst (store_answer clock (k, b, w) (s, ms))) k
     = (Some b, Some w, Some w, Some 1, Some 0, Some (clock k), True)"
  by (simp add: entry_def store_answer_def Let_def)

lemma rtt_round_answer_fresh:
  assumes "entry s k = (None, None, None, None, None, None, False)"
    and "distinct (map fst rtt)" and "(k, b, w) \<in> set rtt"
  shows "entry (rtt_round rtt clock s) k
           = (Some b, Some w, Some w, Some 1, Some 0, Some (clock k), True)"
proof -
  from assms(3) obtain pre post where rtt: "rtt = pre @ (k, b, w) # post"
    by (auto dest: split_list)
  with assms(2) have pre: "k \<notin> fst ` set pre" and post: "k \<notin> fst ` set post" by auto
  let ?ms = "received_ids s"
  obtain s1 ms1 where f1: "fold (store_answer clock) pre (s, ?ms) = (s1, ms1)"
    by (cases "fold (store_answer clock) pre (s, ?ms)")
  obtain s2 ms2 where f2: "store_answer clock (k, b, w) (s1, ms1) = (s2, ms2)"
    by (cases "store_answer clock (k, b, w) (s1, ms1)")
  obtain s3 ms3 where f3: "fold (store_answer clock) post (s2, ms2) = (s3, ms3)"
    by (cases "fold (store_answer clock) post (s2, ms2)")
  have "entry s1 k = entry s k"
    using fold_store_answer_other [OF pre, of clock s ?ms] f1 by simp
  then have e2: "entry s2 k = (Some b, Some w, Some w, Some 1, Some 0, Some (clock k), True)"
    using store_answer_fresh [of s1 k clock b w ms1] assms(1) f2 by simp
  have "k \<notin> set ms2" using store_answer_missing [of clock "(k, b, w)" s1 ms1] f2 by simp
  then have e3: "entry s3 k = entry s2 k" and m3: "k \<notin> set ms3"
    using fold_store_answer_other [OF post, of clock s2 ms2] f3 by simp_all
  have "rtt_round rtt clock s = fold (store_missing clock) ms3 s3"
    using rtt f1 f2 f3 by (simp add: rtt_round_def)
  then show ?thesis using e2 e3 m3 by (simp add: fold_store_missing_other)
qed

lemma store_missing_evicts:
  "clock k - subscript (last_msg_timestamp s) k > delete_entry_timeout_ns \<Longrightarrow>
   entry (store_missing clock k s) k = (None, None, None, None, None, None, False)"
  by (simp add: entry_def store_missing_def delete_entry_def Let_def)

lemma store_missing_zeroes:
  "\<not> clock k - subscript (last_msg_timestamp s) k > delete_entry_timeout_ns \<Longrightarrow>
   current_best_rtt (store_missing clock k s) k = Some 0
   \<and> current_worst_rtt (store_missing clock k s) k = Some 0
   \<and> all_time_worst_rtt (store_missing clock k s) k = all_time_worst_rtt s k"
  by (simp add: store_missing_def Let_def)

lemma entry_fields:
  "current_best_rtt s k = fst (entry s k)"
  "current_worst_rtt s k = fst (snd (entry s k))"
  "all_time_worst_rtt s k = fst (snd (snd (entry s k)))"
  "measure_count s k = fst (snd (snd (snd (entry s k))))"
  "missed_answers s k = fst (snd (snd (snd (snd (entry s k)))))"
  "last_msg_timestamp s k = fst (snd (snd (snd (snd (snd (entry s k))))))"
  "(k \<in> set (received_ids s)) = snd (snd (snd (snd (snd (snd (entry s k))))))"
  by (simp_all add: entry_def)

text \<open>
  C7. A class known to the aggregator that does not answer in a round, and whose last
  answer is more than 10 s old when the round looks at it, is deleted from all six maps
  and from the set of known ids, so that \<open>get_rtt\<close> returns \<open>false\<close> for it and
  leaves the reference parameters alone. When the class answers in a later round, its
  entry is created anew with one measurement and no missed answer.
\<close>

theorem C7_eviction:
  assumes "reachable s" and "k \<in> set (received_ids s)" and "k \<notin> fst ` set rtt"
    and "clock k - subscript (last_msg_timestamp s) k > delete_entry_timeout_ns"
    and "measured_ok rtt'" and "(k, b, w) \<in> set rtt'"
  shows "current_best_rtt (rtt_round rtt clock s) k = None
     \<and> current_worst_rtt (rtt_round rtt clock s) k = None
     \<and> all_time_worst_rtt (rtt_round rtt clock s) k = None
     \<and> measure_count (rtt_round rtt clock s) k = None
     \<and> missed_answers (rtt_round rtt clock s) k = None
     \<and> last_msg_timestamp (rtt_round rtt clock s) k = None
     \<and> k \<notin> set (received_ids (rtt_round rtt clock s))
     \<and> get_rtt (rtt_round rtt clock s) k out = (False, out, rtt_round rtt clock s, [])
     \<and> measure_count (rtt_round rtt' clock' (rtt_round rtt clock s)) k = Some 1
     \<and> missed_answers (rtt_round rtt' clock' (rtt_round rtt clock s)) k = Some 0
     \<and> current_best_rtt (rtt_round rtt' clock' (rtt_round rtt clock s)) k = Some b
     \<and> current_worst_rtt (rtt_round rtt' clock' (rtt_round rtt clock s)) k = Some w
     \<and> all_time_worst_rtt (rtt_round rtt' clock' (rtt_round rtt clock s)) k = Some w
     \<and> k \<in> set (received_ids (rtt_round rtt' clock' (rtt_round rtt clock s)))"
proof -
  let ?s' = "rtt_round rtt clock s"
  have d: "distinct (received_ids s)" using assms(1) reachable_inv by (simp add: rtt_inv_def)
  have e: "entry ?s' k = (None, None, None, None, None, None, False)"
    using rtt_round_missing [OF d assms(2,3), of clock] store_missing_evicts [of clock k s] assms(4)
    by simp
  have e': "entry (rtt_round rtt' clock' ?s') k
              = (Some b, Some w, Some w, Some 1, Some 0, Some (clock' k), True)"
    using e assms(5,6) by (intro rtt_round_answer_fresh) (simp_all add: measured_ok_def)
  have g: "get_rtt ?s' k out = (False, out, ?s', [])"
    using e by (simp add: get_rtt_def entry_fields)
  show ?thesis using e e' g by (simp add: entry_fields)
qed

theorem C7_eviction_witness:
  "reachable (rtt_round [(''vehicle'', 3, 7)] (\<lambda>k. 100) rtt_empty)
   \<and> ''vehicle'' \<in> set (received_ids (rtt_round [(''vehicle'', 3, 7)] (\<lambda>k. 100) rtt_empty))
   \<and> ''vehicle'' \<notin> fst ` set [(''hlc'', 4 :: u64, 5 :: u64)]
   \<and> (10000000101 :: u64) - subscript (last_msg_timestamp (rtt_round [(''vehicle'', 3, 7)] (\<lambda>k. 100) rtt_empty)) ''vehicle''
        > delete_entry_timeout_ns
   \<and> measured_ok [(''vehicle'', 2, 6)] \<and> (''vehicle'', 2, 6) \<in> set [(''vehicle'', 2 :: u64, 6 :: u64)]
   \<and> get_rtt (rtt_round [(''hlc'', 4, 5)] (\<lambda>k. 10000000101)
                 (rtt_round [(''vehicle'', 3, 7)] (\<lambda>k. 100) rtt_empty)) ''vehicle''
        \<lparr>out_current_best_rtt = 9, out_current_worst_rtt = 9, out_all_time_worst_rtt = 9,
          out_missed_answers = 9\<rparr>
       = (False,
          \<lparr>out_current_best_rtt = 9, out_current_worst_rtt = 9, out_all_time_worst_rtt = 9,
            out_missed_answers = 9\<rparr>,
          rtt_round [(''hlc'', 4, 5)] (\<lambda>k. 10000000101)
                 (rtt_round [(''vehicle'', 3, 7)] (\<lambda>k. 100) rtt_empty), [])
   \<and> measure_count (rtt_round [(''vehicle'', 2, 6)] (\<lambda>k. 10000000200)
        (rtt_round [(''hlc'', 4, 5)] (\<lambda>k. 10000000101)
           (rtt_round [(''vehicle'', 3, 7)] (\<lambda>k. 100) rtt_empty))) ''vehicle'' = Some 1
   \<and> missed_answers (rtt_round [(''vehicle'', 2, 6)] (\<lambda>k. 10000000200)
        (rtt_round [(''hlc'', 4, 5)] (\<lambda>k. 10000000101)
           (rtt_round [(''vehicle'', 3, 7)] (\<lambda>k. 100) rtt_empty))) ''vehicle'' = Some 0"
proof -
  have r: "reachable (rtt_round [(''vehicle'', 3, 7)] (\<lambda>k. 100) rtt_empty)"
    by (intro reachable.intros) (simp_all add: measured_ok_def)
  have v: "rtt_round [(''vehicle'', 3, 7)] (\<lambda>k. 100) rtt_empty
           = \<lparr>current_best_rtt = [''vehicle'' \<mapsto> 3], current_worst_rtt = [''vehicle'' \<mapsto> 7],
              all_time_worst_rtt = [''vehicle'' \<mapsto> 7], measure_count = [''vehicle'' \<mapsto> 1],
              missed_answers = [''vehicle'' \<mapsto> 0], last_msg_timestamp = [''vehicle'' \<mapsto> 100],
              received_ids = [''vehicle'']\<rparr>"
    by (simp add: rtt_round_def store_answer_def rtt_empty_def Let_def)
  have h: "''vehicle'' \<in> set (received_ids (rtt_round [(''vehicle'', 3, 7)] (\<lambda>k. 100) rtt_empty))"
    "''vehicle'' \<notin> fst ` set [(''hlc'', 4 :: u64, 5 :: u64)]"
    "(10000000101 :: u64) - subscript (last_msg_timestamp (rtt_round [(''vehicle'', 3, 7)] (\<lambda>k. 100) rtt_empty)) ''vehicle''
        > delete_entry_timeout_ns"
    "measured_ok [(''vehicle'', 2, 6)]" "(''vehicle'', 2, 6) \<in> set [(''vehicle'', 2 :: u64, 6 :: u64)]"
    unfolding v by (simp_all add: subscript_def delete_entry_timeout_ns_def measured_ok_def)
  show ?thesis
    using r h
      C7_eviction [OF r h(1) h(2), where clock = "\<lambda>k. 10000000101", OF h(3) h(4) h(5),
        where clock' = "\<lambda>k. 10000000200"
        and out = "\<lparr>out_current_best_rtt = 9, out_current_worst_rtt = 9, out_all_time_worst_rtt = 9,
          out_missed_answers = 9\<rparr>"]
    by simp
qed

text \<open>
  C10. A class known to the aggregator that does not answer in a round and is not yet
  deleted gets 0 as its current best and current worst time, while its all-time worst
  time stays; \<open>get_rtt\<close> then reports exactly these values.
\<close>

theorem C10_silent_round_zeroes_current:
  assumes "reachable s" and "k \<in> set (received_ids s)" and "k \<notin> fst ` set rtt"
    and "\<not> clock k - subscript (last_msg_timestamp s) k > delete_entry_timeout_ns"
  shows "current_best_rtt (rtt_round rtt clock s) k = Some 0
     \<and> current_worst_rtt (rtt_round rtt clock s) k = Some 0
     \<and> all_time_worst_rtt (rtt_round rtt clock s) k = all_time_worst_rtt s k
     \<and> fst (get_rtt (rtt_round rtt clock s) k out)
     \<and> out_current_best_rtt (fst (snd (get_rtt (rtt_round rtt clock s) k out))) = 0
     \<and> out_current_worst_rtt (fst (snd (get_rtt (rtt_round rtt clock s) k out))) = 0
     \<and> out_all_time_worst_rtt (fst (snd (get_rtt (rtt_round rtt clock s) k out)))
          = subscript (all_time_worst_rtt s) k"
proof -
  let ?s' = "rtt_round rtt clock s"
  have d: "distinct (received_ids s)" using assms(1) reachable_inv by (simp add: rtt_inv_def)
  have e: "entry ?s' k = entry (store_missing clock k s) k"
    using d assms(2,3) by (rule rtt_round_missing)
  have z: "current_best_rtt ?s' k = Some 0 \<and> current_worst_rtt ?s' k = Some 0
           \<and> all_time_worst_rtt ?s' k = all_time_worst_rtt s k"
    using store_missing_zeroes [of clock k s] assms(4) e by (simp add: entry_eq_iff)
  then show ?thesis
    by (simp add: get_rtt_def Let_def subscript_def)
qed

theorem C10_silent_round_zeroes_current_witness:
  "reachable (rtt_round [(''vehicle'', 3, 7)] (\<lambda>k. 100) rtt_empty)
   \<and> ''vehicle'' \<in> set (received_ids (rtt_round [(''vehicle'', 3, 7)] (\<lambda>k. 100) rtt_empty))
   \<and> ''vehicle'' \<notin> fst ` set ([] :: (string \<times> u64 \<times> u64) list)
   \<and> \<not> (200 :: u64) - subscript (last_msg_timestamp (rtt_round [(''vehicle'', 3, 7)] (\<lambda>k. 100) rtt_empty)) ''vehicle''
          > delete_entry_timeout_ns
   \<and> out_current_best_rtt (fst (snd (get_rtt
        (rtt_round [] (\<lambda>k. 200) (rtt_round [(''vehicle'', 3, 7)] (\<lambda>k. 100) rtt_empty)) ''vehicle''
        \<lparr>out_current_best_rtt = 9, out_current_worst_rtt = 9, out_all_time_worst_rtt = 9,
          out_missed_answers = 9\<rparr>))) = 0
   \<and> out_current_worst_rtt (fst (snd (get_rtt
        (rtt_round [] (\<lambda>k. 200) (rtt_round [(''vehicle'', 3, 7)] (\<lambda>k. 100) rtt_empty)) ''vehicle''
        \<lparr>out_current_best_rtt = 9, out_current_worst_rtt = 9, out_all_time_worst_rtt = 9,
          out_missed_answers = 9\<rparr>))) = 0
   \<and> out_all_time_worst_rtt (fst (snd (get_rtt
        (rtt_round [] (\<lambda>k. 200) (rtt_round [(''vehicle'', 3, 7)] (\<lambda>k. 100) rtt_empty)) ''vehicle''
        \<lparr>out_current_best_rtt = 9, out_current_worst_rtt = 9, out_all_time_worst_rtt = 9,
          out_missed_answers = 9\<rparr>))) = 7
   \<and> (0 :: u64) < 7"
proof -
  have r: "reachable (rtt_round [(''vehicle'', 3, 7)] (\<lambda>k. 100) rtt_empty)"
    by (intro reachable.intros) (simp_all add: measured_ok_def)
  have v: "rtt_round [(''vehicle'', 3, 7)] (\<lambda>k. 100) rtt_empty
           = \<lparr>current_best_rtt = [''vehicle'' \<mapsto> 3], current_worst_rtt = [''vehicle'' \<mapsto> 7],
              all_time_worst_rtt = [''vehicle'' \<mapsto> 7], measure_count = [''vehicle'' \<mapsto> 1],
              missed_answers = [''vehicle'' \<mapsto> 0], last_msg_timestamp = [''vehicle'' \<mapsto> 100],
              received_ids = [''vehicle'']\<rparr>"
    by (simp add: rtt_round_def store_answer_def rtt_empty_def Let_def)
  have h: "''vehicle'' \<in> set (received_ids (rtt_round [(''vehicle'', 3, 7)] (\<lambda>k. 100) rtt_empty))"
    "''vehicle'' \<notin> fst ` set ([] :: (string \<times> u64 \<times> u64) list)"
    "\<not> (200 :: u64) - subscript (last_msg_timestamp (rtt_round [(''vehicle'', 3, 7)] (\<lambda>k. 100) rtt_empty)) ''vehicle''
          > delete_entry_timeout_ns"
    unfolding v by (simp_all add: subscript_def delete_entry_timeout_ns_def)
  show ?thesis
    using r h
      C10_silent_round_zeroes_current [OF r h(1) h(2), where clock = "\<lambda>k. 200"
        and out = "\<lparr>out_current_best_rtt = 9, out_current_worst_rtt = 9, out_all_time_worst_rtt = 9,
          out_missed_answers = 9\<rparr>", OF h(3)]
    unfolding v by (simp add: subscript_def)
qed

text \<open>
  C5. In every reachable state, for a class that has an entry, \<open>get_rtt\<close> returns
  \<open>true\<close>, the stored best, worst and all-time worst times, and the quotient of missed
  answers by measurements; the quotient lies between 0 and 1 and
  \<open>best \<le> worst \<le> all-time worst\<close>. In any state, a measurement count that is not
  positive makes it report 0 and log a warning, and a class without entry makes it
  return \<open>false\<close> with the reference parameters untouched.
\<close>

theorem C5_get_rtt:
  "(reachable s \<and> current_best_rtt s k \<noteq> None \<longrightarrow>
      (\<exists>b w a mc ma.
         current_best_rtt s k = Some b \<and> current_worst_rtt s k = Some w
         \<and> all_time_worst_rtt s k = Some a
         \<and> measure_count s k = Some mc \<and> missed_answers s k = Some ma
         \<and> get_rtt s k out =
             (True,
              out\<lparr>out_current_best_rtt := b, out_current_worst_rtt := w,
                  out_all_time_worst_rtt := a, out_missed_answers := ma / mc\<rparr>, s, [])
         \<and> 0 \<le> ma / mc \<and> ma / mc \<le> 1 \<and> b \<le> w \<and> w \<le> a))
   \<and> (current_best_rtt s k \<noteq> None \<and> subscript (measure_count s) k \<le> 0 \<longrightarrow>
        fst (get_rtt s k out)
        \<and> out_missed_answers (fst (snd (get_rtt s k out))) = 0
        \<and> snd (snd (snd (get_rtt s k out))) =
            [LogWrite 1 ''Warning: An overflow occured in RTT aggregator, missed answers data is certainly wrong''])
   \<and> (current_best_rtt s k = None \<longrightarrow> get_rtt s k out = (False, out, s, []))"
proof (intro conjI impI)
  assume "reachable s \<and> current_best_rtt s k \<noteq> None"
  then have inv: "rtt_inv s" and some: "current_best_rtt s k \<noteq> None"
    using reachable_inv by simp_all
  from inv have "entry_ok s k" by (simp add: rtt_inv_def)
  with some obtain b w a mc ma ts where
    e: "entry s k = (Some b, Some w, Some a, Some mc, Some ma, Some ts, True)"
    and r: "b \<le> w" "w \<le> a" "1 \<le> mc" "0 \<le> ma" "ma \<le> mc"
    unfolding entry_ok_cases by (auto simp add: entry_def)
  from e have f: "current_best_rtt s k = Some b" "current_worst_rtt s k = Some w"
    "all_time_worst_rtt s k = Some a" "measure_count s k = Some mc" "missed_answers s k = Some ma"
    by (simp_all add: entry_def)
  have st: "fst (snd (snd (get_rtt s k out))) = s" using inv by (rule get_rtt_state_inv)
  have g: "get_rtt s k out =
             (True,
              out\<lparr>out_current_best_rtt := b, out_current_worst_rtt := w,
                  out_all_time_worst_rtt := a, out_missed_answers := ma / mc\<rparr>, s, [])"
    using f r(3) by (simp add: get_rtt_def Let_def subscript_def touch_def)
  have q: "0 \<le> ma / mc \<and> ma / mc \<le> 1" using r(3-5) by simp
  show "\<exists>b w a mc ma.
         current_best_rtt s k = Some b \<and> current_worst_rtt s k = Some w
         \<and> all_time_worst_rtt s k = Some a
         \<and> measure_count s k = Some mc \<and> missed_answers s k = Some ma
         \<and> get_rtt s k out =
             (True,
              out\<lparr>out_current_best_rtt := b, out_current_worst_rtt := w,
                  out_all_time_worst_rtt := a, out_missed_answers := ma / mc\<rparr>, s, [])
         \<and> 0 \<le> ma / mc \<and> ma / mc \<le> 1 \<and> b \<le> w \<and> w \<le> a"
    using f g q r(1,2) by blast
qed (auto simp add: get_rtt_def Let_def)

theorem C5_get_rtt_witness:
  "(reachable (rtt_round [] (\<lambda>k. 200) (rtt_round [(''vehicle'', 3, 7)] (\<lambda>k. 100) rtt_empty))
    \<and> current_best_rtt (rtt_round [] (\<lambda>k. 200) (rtt_round [(''vehicle'', 3, 7)] (\<lambda>k. 100) rtt_empty))
         ''vehicle'' \<noteq> None)
   \<and> get_rtt (rtt_round [] (\<lambda>k. 200) (rtt_round [(''vehicle'', 3, 7)] (\<lambda>k. 100) rtt_empty))
        ''vehicle''
        \<lparr>out_current_best_rtt = 9, out_current_worst_rtt = 9, out_all_time_worst_rtt = 9,
          out_missed_answers = 9\<rparr>
       = (True,
          \<lparr>out_current_best_rtt = 0, out_current_worst_rtt = 0, out_all_time_worst_rtt = 7,
            out_missed_answers = 1 / 2\<rparr>,
          rtt_round [] (\<lambda>k. 200) (rtt_round [(''vehicle'', 3, 7)] (\<lambda>k. 100) rtt_empty), [])
   \<and> (current_best_rtt (rtt_empty\<lparr>current_best_rtt := [''vehicle'' \<mapsto> 3]\<rparr>) ''vehicle'' \<noteq> None
      \<and> subscript (measure_count (rtt_empty\<lparr>current_best_rtt := [''vehicle'' \<mapsto> 3]\<rparr>)) ''vehicle'' \<le> 0)
   \<and> out_missed_answers (fst (snd (get_rtt (rtt_empty\<lparr>current_best_rtt := [''vehicle'' \<mapsto> 3]\<rparr>)
        ''vehicle''
        \<lparr>out_current_best_rtt = 9, out_current_worst_rtt = 9, out_all_time_worst_rtt = 9,
          out_missed_answers = 9\<rparr>))) = 0
   \<and> current_best_rtt rtt_empty ''vehicle'' = None
   \<and> get_rtt rtt_empty ''vehicle''
        \<lparr>out_current_best_rtt = 9, out_current_worst_rtt = 9, out_all_time_worst_rtt = 9,
          out_missed_answers = 9\<rparr>
       = (False,
          \<lparr>out_current_best_rtt = 9, out_current_worst_rtt = 9, out_all_time_worst_rtt = 9,
            out_missed_answers = 9\<rparr>, rtt_empty, [])"
proof -
  have r: "reachable (rtt_round [] (\<lambda>k. 200) (rtt_round [(''vehicle'', 3, 7)] (\<lambda>k. 100) rtt_empty))"
    by (intro reachable.intros) (simp_all add: measured_ok_def)
  have v: "rtt_round [] (\<lambda>k. 200) (rtt_round [(''vehicle'', 3, 7)] (\<lambda>k. 100) rtt_empty)
           = \<lparr>current_best_rtt = [''vehicle'' \<mapsto> 0], current_worst_rtt = [''vehicle'' \<mapsto> 0],
              all_time_worst_rtt = [''vehicle'' \<mapsto> 7], measure_count = [''vehicle'' \<mapsto> 2],
              missed_answers = [''vehicle'' \<mapsto> 1], last_msg_timestamp = [''vehicle'' \<mapsto> 100],
              received_ids = [''vehicle'']\<rparr>"
    by (simp add: rtt_round_def store_answer_def store_missing_def rtt_empty_def Let_def
          subscript_def touch_def delete_entry_timeout_ns_def)
  show ?thesis
    using r
      C5_get_rtt [where s = "rtt_round [] (\<lambda>k. 200) (rtt_round [(''vehicle'', 3, 7)] (\<lambda>k. 100) rtt_empty)"
        and k = "''vehicle''"
        and out = "\<lparr>out_current_best_rtt = 9, out_current_worst_rtt = 9, out_all_time_worst_rtt = 9,
          out_missed_answers = 9\<rparr>"]
      C5_get_rtt [where s = "rtt_empty\<lparr>current_best_rtt := [''vehicle'' \<mapsto> 3]\<rparr>"
        and k = "''vehicle''"
        and out = "\<lparr>out_current_best_rtt = 9, out_current_worst_rtt = 9, out_all_time_worst_rtt = 9,
          out_missed_answers = 9\<rparr>"]
      C5_get_rtt [where s = rtt_empty and k = "''vehicle''"
        and out = "\<lparr>out_current_best_rtt = 9, out_current_worst_rtt = 9, out_all_time_worst_rtt = 9,
          out_missed_answers = 9\<rparr>"]
    unfolding v by (simp add: rtt_empty_def subscript_def)
qed

end
